theory Spec2Isabelle
  imports Main "HOL-Library.Char_ord" "HOL-Library.List_Lexorder"
begin

section \<open>Clock and time policy: the part of Go's \<open>time\<close> package the writer calls\<close>

text \<open>
  An instant is a count of nanoseconds since the Unix epoch (UTC).  \<open>Time.Format\<close>
  turns it into calendar fields of the proleptic Gregorian calendar at a zone offset
  and prints them under a layout.  Go compares strings bytewise, which is the
  lexicographic order of \<open>char list\<close>, a proper prefix being smaller.
\<close>

type_synonym instant = int

definition isLeap :: "int \<Rightarrow> bool" where
  "isLeap y = (y mod 4 = 0 \<and> (y mod 100 \<noteq> 0 \<or> y mod 400 = 0))"

definition daysInYear :: "int \<Rightarrow> int" where
  "daysInYear y = (if isLeap y then 366 else 365)"

text \<open>The year and the day within it, walking forward from the first day of year \<open>y\<close>.\<close>

function yearFwd :: "int \<Rightarrow> int \<Rightarrow> int \<times> int" where
  "yearFwd y d = (if d < daysInYear y then (y, d) else yearFwd (y + 1) (d - daysInYear y))"
  by pat_completeness auto
termination
  by (relation "measure (\<lambda>(y, d). nat d)") (auto simp: daysInYear_def split: if_splits)

text \<open>
  Days are counted from 0000-01-01.  The calendar repeats every 400 years, which are
  146097 days; the walk starts at the beginning of the 400-year cycle the day lies in.
\<close>

definition yearOfDays :: "int \<Rightarrow> int \<times> int" where
  "yearOfDays d = yearFwd (400 * (d div 146097)) (d mod 146097)"

definition monthLengths :: "int \<Rightarrow> int list" where
  "monthLengths y = [31, if isLeap y then 29 else 28, 31, 30, 31, 30, 31, 31, 30, 31, 30, 31]"

fun monthSplit :: "int list \<Rightarrow> int \<Rightarrow> int \<Rightarrow> int \<times> int" where
  "monthSplit [] m d = (m, d)"
| "monthSplit (l # ls) m d = (if d < l then (m, d) else monthSplit ls (m + 1) (d - l))"

record civil =
  cYear :: int
  cMonth :: int
  cDay :: int
  cHour :: int
  cMinute :: int
  cSecond :: int
  cNano :: int
  cOffset :: int

text \<open>
  \<open>civilOf off t\<close>: the fields of instant \<open>t\<close> on a wall clock \<open>off\<close> seconds east
  of UTC.  719528 is the number of days from 0000-01-01 to 1970-01-01.
\<close>

definition civilOf :: "int \<Rightarrow> instant \<Rightarrow> civil" where
  "civilOf off t =
     (let secs = t div 1000000000 + off;
          days = secs div 86400 + 719528;
          sod = secs mod 86400;
          (y, yd) = yearOfDays days;
          (m, md) = monthSplit (monthLengths y) 1 yd
      in \<lparr> cYear = y, cMonth = m, cDay = md + 1,
           cHour = sod div 3600, cMinute = (sod mod 3600) div 60, cSecond = sod mod 60,
           cNano = t mod 1000000000, cOffset = off \<rparr>)"

subsection \<open>Printing numbers\<close>

definition digit :: "int \<Rightarrow> char" where
  "digit n = char_of (48 + n)"

function dec :: "int \<Rightarrow> string" where
  "dec n = (if n < 10 then [digit n] else dec (n div 10) @ [digit (n mod 10)])"
  by pat_completeness auto
termination
  by (relation "measure nat") auto

text \<open>\<open>appendInt\<close>: decimal, zero-padded to at least \<open>w\<close> digits, with a sign when negative.\<close>

definition appendInt :: "int \<Rightarrow> nat \<Rightarrow> string" where
  "appendInt x w =
     (let ds = dec \<bar>x\<bar>
      in (if x < 0 then ''-'' else []) @ replicate (w - length ds) (CHR ''0'') @ ds)"

fun trimRight :: "char \<Rightarrow> string \<Rightarrow> string" where
  "trimRight c s = rev (dropWhile (\<lambda>x. x = c) (rev s))"

text \<open>
  \<open>appendNano\<close>: the fractional second.  \<open>n\<close> digits after the separator; with \<open>trim\<close>
  (the \<open>.999\<close> form) trailing zeros go, and the separator with them when nothing is left.
\<close>

definition appendNano :: "int \<Rightarrow> char \<Rightarrow> nat \<Rightarrow> bool \<Rightarrow> string" where
  "appendNano nanosec sep n trim =
     (if trim \<and> (n = 0 \<or> nanosec = 0) then []
      else
        (let b = sep # take n (appendInt nanosec 9)
         in if trim then
              (let b' = trimRight (CHR ''0'') b
               in if b' \<noteq> [] \<and> (last b' = CHR ''.'' \<or> last b' = CHR '','') then butlast b' else b')
            else b))"

subsection \<open>Layouts\<close>

text \<open>
  The layout verbs the package's own formats use; every other character of a layout is
  copied.  (Go knows more verbs, such as \<open>Jan\<close> or \<open>PM\<close>; a caller's layout that uses
  them is outside this model.)
\<close>

datatype chunk =
    StdLongYear
  | StdZeroMonth
  | StdZeroDay
  | StdHour
  | StdZeroMinute
  | StdZeroSecond
  | StdFracSecond0 char nat
  | StdFracSecond9 char nat
  | StdISO8601ColonTZ
  | Lit char

definition hasPrefix :: "string \<Rightarrow> string \<Rightarrow> bool" where
  "hasPrefix s p = (take (length p) s = p)"

definition isDigit :: "char \<Rightarrow> bool" where
  "isDigit c = (CHR ''0'' \<le> c \<and> c \<le> CHR ''9'')"

definition isFrac :: "string \<Rightarrow> bool" where
  "isFrac s =
     (case s of
        c # ch # rest \<Rightarrow>
          (c = CHR ''.'' \<or> c = CHR '','') \<and> (ch = CHR ''0'' \<or> ch = CHR ''9'') \<and>
          (case dropWhile (\<lambda>x. x = ch) rest of [] \<Rightarrow> True | d # _ \<Rightarrow> \<not> isDigit d)
      | _ \<Rightarrow> False)"

function layoutChunks :: "string \<Rightarrow> chunk list" where
  "layoutChunks [] = []"
| "layoutChunks (c # cs) =
     (let s = c # cs in
      if hasPrefix s ''2006'' then StdLongYear # layoutChunks (drop 4 s)
      else if hasPrefix s ''01'' then StdZeroMonth # layoutChunks (drop 2 s)
      else if hasPrefix s ''02'' then StdZeroDay # layoutChunks (drop 2 s)
      else if hasPrefix s ''04'' then StdZeroMinute # layoutChunks (drop 2 s)
      else if hasPrefix s ''05'' then StdZeroSecond # layoutChunks (drop 2 s)
      else if hasPrefix s ''15'' then StdHour # layoutChunks (drop 2 s)
      else if hasPrefix s ''Z07:00'' then StdISO8601ColonTZ # layoutChunks (drop 6 s)
      else if isFrac s then
        (let ch = hd cs; n = length (takeWhile (\<lambda>x. x = ch) cs)
         in (if ch = CHR ''0'' then StdFracSecond0 c n else StdFracSecond9 c n)
            # layoutChunks (dropWhile (\<lambda>x. x = ch) cs))
      else Lit c # layoutChunks cs)"
  by pat_completeness auto
termination
  by (relation "measure length") (auto intro: le_imp_less_Suc length_dropWhile_le)

definition appendZone :: "int \<Rightarrow> string" where
  "appendZone off =
     (if off = 0 then ''Z''
      else
        (let zone = (if off < 0 then - ((- off) div 60) else off div 60);
             sign = (if zone < 0 then CHR ''-'' else CHR ''+'');
             z = \<bar>zone\<bar>
         in sign # appendInt (z div 60) 2 @ '':'' @ appendInt (z mod 60) 2))"

fun appendChunk :: "civil \<Rightarrow> chunk \<Rightarrow> string" where
  "appendChunk t StdLongYear = appendInt (cYear t) 4"
| "appendChunk t StdZeroMonth = appendInt (cMonth t) 2"
| "appendChunk t StdZeroDay = appendInt (cDay t) 2"
| "appendChunk t StdHour = appendInt (cHour t) 2"
| "appendChunk t StdZeroMinute = appendInt (cMinute t) 2"
| "appendChunk t StdZeroSecond = appendInt (cSecond t) 2"
| "appendChunk t (StdFracSecond0 sep n) = appendNano (cNano t) sep n False"
| "appendChunk t (StdFracSecond9 sep n) = appendNano (cNano t) sep n True"
| "appendChunk t StdISO8601ColonTZ = appendZone (cOffset t)"
| "appendChunk t (Lit c) = [c]"

definition Format :: "civil \<Rightarrow> string \<Rightarrow> string" where
  "Format t layout = concat (map (appendChunk t) (layoutChunks layout))"


section \<open>The operating system, as far as the writer sees it\<close>

datatype error =
    ErrFileNameIsEmpty
  | ErrLogFileClosed
  | ErrDataOversize
  | ErrInvalid
  | ErrClosed
  | ErrNotExist
  | ErrBadPattern
  | OSError string

text \<open>
  A call returns, panics (a Go run-time panic, fatal to the process unless recovered;
  the package recovers nowhere), or blocks (a channel send that cannot proceed).
\<close>

datatype 'a outcome = Returns 'a | Panics | Blocks

type_synonym fd = nat

datatype syscall =
    Stat string
  | MkdirAll string
  | Create string
  | OpenFile string
  | Rename string string
  | Remove string
  | Glob string
  | FSync fd
  | FClose fd
  | FWrite fd string

datatype event = Sys syscall | GoPostRotate | ClosePostDone

text \<open>
  \<open>files\<close>: regular files by path, with their contents; \<open>fds\<close>: the open descriptors
  and the path each was opened on; \<open>fault\<close>: the calls the system refuses, with the
  error it gives; \<open>trace\<close>: every call attempted, oldest first.  A file is the path
  it is reached by: two spellings of one path are two files here.

  \<open>listing\<close> is \<open>filepath.Glob\<close>, which is not part of the package: the names it returns
  for a pattern over the files present.  It is a parameter of the world; what the
  sweeps need of it is said where it is used.
\<close>

record world =
  files :: "(string \<times> string) list"
  dirs :: "string list"
  fds :: "(fd \<times> string) list"
  nextfd :: fd
  clock :: instant
  zone :: "instant \<Rightarrow> int"
  fault :: "syscall \<Rightarrow> error option"
  listing :: "(string \<times> string) list \<Rightarrow> string \<Rightarrow> string list"
  trace :: "event list"

definition emit :: "event \<Rightarrow> world \<Rightarrow> world" where
  "emit e w = w\<lparr>trace := trace w @ [e]\<rparr>"

definition exists_file :: "world \<Rightarrow> string \<Rightarrow> bool" where
  "exists_file w p = (p \<in> set (map fst (files w)))"

definition put_file :: "string \<Rightarrow> string \<Rightarrow> (string \<times> string) list \<Rightarrow> (string \<times> string) list" where
  "put_file p c fs = (if p \<in> set (map fst fs)
                      then map (\<lambda>(q, d). if q = p then (q, c) else (q, d)) fs
                      else fs @ [(p, c)])"

definition del_file :: "string \<Rightarrow> (string \<times> string) list \<Rightarrow> (string \<times> string) list" where
  "del_file p fs = filter (\<lambda>(q, d). q \<noteq> p) fs"

definition contents :: "world \<Rightarrow> string \<Rightarrow> string" where
  "contents w p = (case map_of (files w) p of Some c \<Rightarrow> c | None \<Rightarrow> [])"

definition osStat :: "string \<Rightarrow> world \<Rightarrow> error option \<times> world" where
  "osStat p w =
     (let w' = emit (Sys (Stat p)) w in
      case fault w (Stat p) of
        Some e \<Rightarrow> (Some e, w')
      | None \<Rightarrow> if exists_file w p \<or> p \<in> set (dirs w) then (None, w') else (Some ErrNotExist, w'))"

definition osMkdirAll :: "string \<Rightarrow> world \<Rightarrow> error option \<times> world" where
  "osMkdirAll p w =
     (let w' = emit (Sys (MkdirAll p)) w in
      case fault w (MkdirAll p) of
        Some e \<Rightarrow> (Some e, w')
      | None \<Rightarrow> (None, w'\<lparr>dirs := (if p \<in> set (dirs w) then dirs w else dirs w @ [p])\<rparr>))"

definition open_fd :: "string \<Rightarrow> world \<Rightarrow> fd \<times> world" where
  "open_fd p w = (nextfd w, w\<lparr>fds := fds w @ [(nextfd w, p)], nextfd := Suc (nextfd w)\<rparr>)"

text \<open>\<open>os.Create\<close>: create or truncate.  The empty path names no file (ENOENT).\<close>

definition osCreate :: "string \<Rightarrow> world \<Rightarrow> (error + fd) \<times> world" where
  "osCreate p w =
     (let w' = emit (Sys (Create p)) w in
      case fault w (Create p) of
        Some e \<Rightarrow> (Inl e, w')
      | None \<Rightarrow>
          if p = [] then (Inl ErrNotExist, w')
          else (let (h, w'') = open_fd p (w'\<lparr>files := put_file p [] (files w')\<rparr>) in (Inr h, w'')))"

text \<open>\<open>os.OpenFile\<close> with \<open>O_APPEND|O_WRONLY\<close>: the file must exist.\<close>

definition osOpenFile :: "string \<Rightarrow> world \<Rightarrow> (error + fd) \<times> world" where
  "osOpenFile p w =
     (let w' = emit (Sys (OpenFile p)) w in
      case fault w (OpenFile p) of
        Some e \<Rightarrow> (Inl e, w')
      | None \<Rightarrow>
          if \<not> exists_file w p then (Inl ErrNotExist, w')
          else (let (h, w'') = open_fd p w' in (Inr h, w'')))"

definition osRename :: "string \<Rightarrow> string \<Rightarrow> world \<Rightarrow> error option \<times> world" where
  "osRename a b w =
     (let w' = emit (Sys (Rename a b)) w in
      case fault w (Rename a b) of
        Some e \<Rightarrow> (Some e, w')
      | None \<Rightarrow>
          if \<not> exists_file w a then (Some ErrNotExist, w')
          else if a = b then (None, w')
          else (None, w'\<lparr>files := put_file b (contents w a) (del_file a (files w))\<rparr>))"

definition osRemove :: "string \<Rightarrow> world \<Rightarrow> error option \<times> world" where
  "osRemove p w =
     (let w' = emit (Sys (Remove p)) w in
      case fault w (Remove p) of
        Some e \<Rightarrow> (Some e, w')
      | None \<Rightarrow>
          if \<not> exists_file w p then (Some ErrNotExist, w')
          else (None, w'\<lparr>files := del_file p (files w)\<rparr>))"

text \<open>\<open>filepath.Glob\<close>: what the world lists for the pattern, unless the call is refused.\<close>

definition osGlob :: "string \<Rightarrow> world \<Rightarrow> (error + string list) \<times> world" where
  "osGlob pat w =
     (let w' = emit (Sys (Glob pat)) w in
      case fault w (Glob pat) of
        Some e \<Rightarrow> (Inl e, w')
      | None \<Rightarrow> (Inr (listing w (files w) pat), w'))"

definition is_open :: "world \<Rightarrow> fd \<Rightarrow> bool" where
  "is_open w h = (h \<in> set (map fst (fds w)))"

definition fileSync :: "fd \<Rightarrow> world \<Rightarrow> error option \<times> world" where
  "fileSync h w =
     (let w' = emit (Sys (FSync h)) w in
      if \<not> is_open w h then (Some ErrClosed, w')
      else (fault w (FSync h), w'))"

text \<open>\<open>File.Close\<close> gives the descriptor up even when the system reports an error.\<close>

definition fileClose :: "fd \<Rightarrow> world \<Rightarrow> error option \<times> world" where
  "fileClose h w =
     (let w' = emit (Sys (FClose h)) w in
      if \<not> is_open w h then (Some ErrClosed, w')
      else (fault w (FClose h), w'\<lparr>fds := filter (\<lambda>(k, p). k \<noteq> h) (fds w)\<rparr>))"

text \<open>\<open>File.Write\<close>: the bytes are appended to the file the descriptor was opened on.\<close>

definition fileWrite :: "fd \<Rightarrow> string \<Rightarrow> world \<Rightarrow> error option \<times> world" where
  "fileWrite h bs w =
     (let w' = emit (Sys (FWrite h bs)) w in
      case map_of (fds w) h of
        None \<Rightarrow> (Some ErrClosed, w')
      | Some p \<Rightarrow>
          (case fault w (FWrite h bs) of
             Some e \<Rightarrow> (Some e, w')
           | None \<Rightarrow>
               (None, if exists_file w p then w'\<lparr>files := put_file p (contents w p @ bs) (files w)\<rparr>
                      else w')))"


section \<open>The writer\<close>

text \<open>Go's \<open>int64\<close> arithmetic wraps around.\<close>

definition wrap64 :: "int \<Rightarrow> int" where
  "wrap64 x = (x + 9223372036854775808) mod 18446744073709551616 - 9223372036854775808"

record rotateOption =
  delimiter :: string
  timeFormat :: string
  gzip :: bool
  localTime :: bool
  keepDays :: int
  maxSize :: int
  maxBackups :: int

text \<open>
  \<open>postCh\<close> is the buffered channel (capacity 100) as the queue of names not yet received;
  \<open>postDone\<close> tells whether that channel has been closed; \<open>closeOnce\<close> whether the
  \<open>sync.Once\<close> has fired.  \<open>Write\<close> and \<open>Close\<close> run under the mutex \<open>mu\<close>, so each is
  one step on the writer and the world.
\<close>

record RotateWriter =
  filename :: string
  prefix :: string
  ext :: string
  backupName :: string
  size_w :: int
  opt :: rotateOption
  err :: "error option"
  postCh :: "string list"
  postDone :: bool
  fp :: "fd option"
  closeOnce :: bool
  done_w :: bool

definition megabyte :: int where "megabyte = 1024 * 1024"
definition defaultKeepDays :: int where "defaultKeepDays = 30"
definition defaultMaxSize :: int where "defaultMaxSize = 128"
definition defaultMaxBackups :: int where "defaultMaxBackups = 0"
definition defaultDelimiter :: string where "defaultDelimiter = ''-''"
definition defaultTimeFormat :: string where "defaultTimeFormat = ''2006-01-02T15:04:05.000''"

text \<open>The two other constant files of the repository give these defaults instead.\<close>

definition defaultMaxBackups_c :: int where "defaultMaxBackups_c = 30"
definition defaultTimeFormat_c :: string where "defaultTimeFormat_c = ''2006-01-02T15:04:05.999Z07:00''"
definition defaultTimeFormat_rfc :: string where "defaultTimeFormat_rfc = ''2006-01-02T15:04:05Z07:00''"

datatype RotateOption =
    WithGzip bool
  | WithKeepDays int
  | WithMaxSize int
  | WithLocalTime bool
  | WithMaxBackups int
  | WithDelimiter string
  | WithTimeFormat string

fun applyOption :: "RotateOption \<Rightarrow> rotateOption \<Rightarrow> rotateOption" where
  "applyOption (WithGzip g) ro = ro\<lparr>gzip := g\<rparr>"
| "applyOption (WithKeepDays days) ro = ro\<lparr>keepDays := days\<rparr>"
| "applyOption (WithMaxSize mx) ro =
     (if mx \<le> 0 then ro\<lparr>maxSize := defaultMaxSize * megabyte\<rparr>
      else ro\<lparr>maxSize := wrap64 (mx * megabyte)\<rparr>)"
| "applyOption (WithLocalTime l) ro = ro\<lparr>localTime := l\<rparr>"
| "applyOption (WithMaxBackups mx) ro = ro\<lparr>maxBackups := mx\<rparr>"
| "applyOption (WithDelimiter del) ro =
     (if length del = 0 then ro\<lparr>delimiter := defaultDelimiter\<rparr> else ro\<lparr>delimiter := del\<rparr>)"
| "applyOption (WithTimeFormat format) ro =
     (if length format = 0 then ro\<lparr>timeFormat := defaultTimeFormat\<rparr> else ro\<lparr>timeFormat := format\<rparr>)"

definition nowDate :: "string \<Rightarrow> bool \<Rightarrow> world \<Rightarrow> string" where
  "nowDate format local w =
     (if \<not> local then Format (civilOf 0 (clock w)) format
      else Format (civilOf (zone w (clock w)) (clock w)) format)"

definition dateline :: "string \<Rightarrow> bool \<Rightarrow> int \<Rightarrow> world \<Rightarrow> string" where
  "dateline format local delay w =
     (if \<not> local then Format (civilOf 0 (clock w + delay)) format
      else Format (civilOf (zone w (clock w + delay)) (clock w + delay)) format)"

text \<open>\<open>filepath.Ext\<close>: from the last dot of the last path element on, or nothing.\<close>

definition Ext :: "string \<Rightarrow> string" where
  "Ext path =
     (let el = takeWhile (\<lambda>c. c \<noteq> CHR ''/'') (rev path)
      in if CHR ''.'' \<in> set el then CHR ''.'' # rev (takeWhile (\<lambda>c. c \<noteq> CHR ''.'') el) else [])"

text \<open>
  \<open>path.Dir\<close>: everything before the last path element, cleaned; for paths without
  \<open>.\<close>, \<open>..\<close> or empty elements cleaning only strips the trailing separators.
\<close>

definition Dir :: "string \<Rightarrow> string" where
  "Dir path =
     (let d = rev (dropWhile (\<lambda>c. c \<noteq> CHR ''/'') (rev path))
      in if d = [] then ''.''
         else (let d' = trimRight (CHR ''/'') d in if d' = [] then ''/'' else d'))"

definition backupFileName :: "RotateWriter \<Rightarrow> world \<Rightarrow> string" where
  "backupFileName r w =
     prefix r @ delimiter (opt r) @ nowDate (timeFormat (opt r)) (localTime (opt r)) w @ ext r"

definition init :: "RotateWriter \<Rightarrow> world \<Rightarrow> error option \<times> RotateWriter \<times> world" where
  "init r w =
     (let r1 = r\<lparr>ext := Ext (filename r)\<rparr>;
          r2 = r1\<lparr>prefix := take (length (filename r1) - length (ext r1)) (filename r1)\<rparr>;
          r3 = r2\<lparr>backupName := backupFileName r2 w\<rparr>;
          (e, w1) = osStat (filename r3) w
      in if e \<noteq> None then
           (let basePath = Dir (filename r3);
                (e2, w2) = osStat basePath w1;
                (e3, w3) = (if e2 \<noteq> None then osMkdirAll basePath w2 else (None, w2))
            in if e3 \<noteq> None then (e3, r3, w3)
               else (case osCreate (filename r3) w3 of
                       (Inl e4, w4) \<Rightarrow> (Some e4, r3\<lparr>fp := None\<rparr>, w4)
                     | (Inr h, w4) \<Rightarrow> (None, r3\<lparr>fp := Some h\<rparr>, w4)))
         else (case osOpenFile (filename r3) w1 of
                 (Inl e4, w4) \<Rightarrow> (Some e4, r3\<lparr>fp := None\<rparr>, w4)
               | (Inr h, w4) \<Rightarrow> (None, r3\<lparr>fp := Some h\<rparr>, w4)))"

definition defaults :: rotateOption where
  "defaults = \<lparr> delimiter = defaultDelimiter, timeFormat = defaultTimeFormat, gzip = False,
                localTime = True, keepDays = defaultKeepDays,
                maxSize = defaultMaxSize * megabyte, maxBackups = defaultMaxBackups \<rparr>"

definition blank :: "string \<Rightarrow> rotateOption \<Rightarrow> RotateWriter" where
  "blank name ro =
     \<lparr> filename = name, prefix = [], ext = [], backupName = [], size_w = 0, opt = ro,
       err = None, postCh = [], postDone = False, fp = None, closeOnce = False,
       done_w = False \<rparr>"

text \<open>\<open>NewRotateWriter\<close> of rotatewriter.go.  The task it starts shows in the trace.\<close>

definition NewRotateWriter ::
  "string \<Rightarrow> RotateOption list \<Rightarrow> world \<Rightarrow> (RotateWriter option \<times> error option) \<times> world" where
  "NewRotateWriter name options w =
     (let r = blank name (foldl (\<lambda>ro fn. applyOption fn ro) defaults options)
      in case init r w of
           (Some e, r', w') \<Rightarrow> ((None, Some e), w')
         | (None, r', w') \<Rightarrow> ((Some r', None), emit GoPostRotate w'))"

text \<open>The sibling constructor (the second copy of the file) checks the name first.\<close>

definition defaults_c :: rotateOption where
  "defaults_c = defaults\<lparr>maxBackups := defaultMaxBackups_c, timeFormat := defaultTimeFormat_c\<rparr>"

definition NewRotateWriter2 ::
  "string \<Rightarrow> RotateOption list \<Rightarrow> world \<Rightarrow> (RotateWriter option \<times> error option) \<times> world" where
  "NewRotateWriter2 name options w =
     (if length name = 0 then ((None, Some ErrFileNameIsEmpty), w)
      else
        (let r = blank name (foldl (\<lambda>ro fn. applyOption fn ro) defaults_c options)
         in case init r w of
              (Some e, r', w') \<Rightarrow> ((None, Some e), w')
            | (None, r', w') \<Rightarrow> ((Some r', None), emit GoPostRotate w')))"

definition oldFiles :: "RotateWriter \<Rightarrow> world \<Rightarrow> (error + string list) \<times> world" where
  "oldFiles r w =
     (let pattern = (if gzip (opt r) then prefix r @ delimiter (opt r) @ ''*'' @ ext r @ ''.gz''
                     else prefix r @ delimiter (opt r) @ ''*'' @ ext r)
      in osGlob pattern w)"

text \<open>The tail of \<open>rotate\<close>: fix the next backup name, then create the fresh file.\<close>

definition reopen :: "RotateWriter \<Rightarrow> world \<Rightarrow> error option outcome \<times> RotateWriter \<times> world" where
  "reopen r w =
     (let r' = r\<lparr>backupName := backupFileName r w\<rparr>
      in case osCreate (filename r') w of
           (Inl e, w') \<Rightarrow> (Returns (Some e), r'\<lparr>fp := None\<rparr>, w')
         | (Inr h, w') \<Rightarrow> (Returns None, r'\<lparr>fp := Some h\<rparr>, w'))"

text \<open>The head of \<open>rotate\<close>: close the handle, if there is one, and forget it.\<close>

definition closeOld :: "RotateWriter \<Rightarrow> world \<Rightarrow> error option \<times> RotateWriter \<times> world" where
  "closeOld r w =
     (case fp r of
        None \<Rightarrow> (None, r, w)
      | Some h \<Rightarrow> (case fileClose h w of
                     (Some e, w') \<Rightarrow> (Some e, r, w')
                   | (None, w') \<Rightarrow> (None, r\<lparr>fp := None\<rparr>, w')))"

text \<open>
  \<open>rotate\<close>.  The send \<open>r.postCh <- backupName\<close> goes through when the buffer has room
  and waits otherwise.
\<close>

definition rotate :: "RotateWriter \<Rightarrow> world \<Rightarrow> error option outcome \<times> RotateWriter \<times> world" where
  "rotate r w =
     (case closeOld r w of
        (Some e, r1, w1) \<Rightarrow> (Returns (Some e), r1, w1)
      | (None, r1, w1) \<Rightarrow>
          (case osStat (filename r1) w1 of
             (se, w2) \<Rightarrow>
               if se = None \<and> length (backupName r1) > 0 then
                 (case osRename (filename r1) (backupName r1) w2 of
                    (Some e, w3) \<Rightarrow> (Returns (Some e), r1, w3)
                  | (None, w3) \<Rightarrow>
                      if length (postCh r1) \<ge> 100 then (Blocks, r1, w3)
                      else reopen (r1\<lparr>postCh := postCh r1 @ [backupName r1]\<rparr>) w3)
               else reopen r1 w2))"

text \<open>The unexported \<open>write\<close> (primed here: the bare name is reserved).\<close>

definition write' :: "string \<Rightarrow> RotateWriter \<Rightarrow> world \<Rightarrow> error option outcome \<times> RotateWriter \<times> world" where
  "write' data r w =
     (let sz = int (length data);
          (res, r1, w1) =
            (if wrap64 (size_w r + sz) > maxSize (opt r) then
               (case rotate r w of
                  (Returns None, r', w') \<Rightarrow> (Returns None, r'\<lparr>size_w := 0\<rparr>, w')
                | other \<Rightarrow> other)
             else (Returns None, r, w))
      in if res \<noteq> Returns None then (res, r1, w1)
         else (case fp r1 of
                 None \<Rightarrow> (Returns None, r1, w1)
               | Some h \<Rightarrow>
                   (case fileWrite h data w1 of
                      (Some e, w2) \<Rightarrow> (Returns (Some e), r1, w2)
                    | (None, w2) \<Rightarrow> (Returns None, r1\<lparr>size_w := wrap64 (size_w r1 + sz)\<rparr>, w2))))"

definition Write ::
  "string \<Rightarrow> RotateWriter \<Rightarrow> world \<Rightarrow> (int \<times> error option) outcome \<times> RotateWriter \<times> world" where
  "Write data r w =
     (if done_w r then (Returns (0, Some ErrLogFileClosed), r, w)
      else
        (let sz = int (length data)
         in if sz > maxSize (opt r) then (Returns (0, Some ErrDataOversize), r, w)
            else (case err r of
                    Some e \<Rightarrow> (Returns (0, Some e), r\<lparr>err := None\<rparr>, w)
                  | None \<Rightarrow>
                      (case write' data r w of
                         (Returns (Some e), r1, w1) \<Rightarrow> (Returns (0, Some e), r1, w1)
                       | (Returns None, r1, w1) \<Rightarrow> (Returns (sz, None), r1, w1)
                       | (Panics, r1, w1) \<Rightarrow> (Panics, r1, w1)
                       | (Blocks, r1, w1) \<Rightarrow> (Blocks, r1, w1)))))"

text \<open>
  \<open>Close\<close>.  The body runs under \<open>closeOnce\<close>; a later call skips it and returns the zero
  value of the named result.  \<open>Sync\<close> on a nil file is \<open>ErrInvalid\<close>, without a system call.
\<close>

definition Close :: "RotateWriter \<Rightarrow> world \<Rightarrow> error option \<times> RotateWriter \<times> world" where
  "Close r w =
     (if closeOnce r then (None, r, w)
      else
        (let r1 = r\<lparr>closeOnce := True, done_w := True, postDone := True\<rparr>;
             w1 = emit ClosePostDone w
         in case fp r1 of
              None \<Rightarrow> (Some ErrInvalid, r1, w1)
            | Some h \<Rightarrow>
                (let (e, w2) = fileSync h w1
                 in if e \<noteq> None then (e, r1, w2)
                    else (let (e', w3) = fileClose h w2 in (e', r1, w3)))))"


section \<open>Retention sweeps\<close>

text \<open>The loop of the age sweep: names not below the boundary are skipped; the first
  failed removal ends the loop.\<close>

fun removeBelow :: "string \<Rightarrow> string list \<Rightarrow> world \<Rightarrow> error option \<times> world" where
  "removeBelow b [] w = (None, w)"
| "removeBelow b (file # fs) w =
     (if file \<ge> b then removeBelow b fs w
      else (case osRemove file w of
              (Some e, w') \<Rightarrow> (Some e, w')
            | (None, w') \<Rightarrow> removeBelow b fs w'))"

definition boundaryFile :: "RotateWriter \<Rightarrow> world \<Rightarrow> string" where
  "boundaryFile r w =
     (let boundary = dateline (timeFormat (opt r)) (localTime (opt r))
                       (wrap64 (- 3600000000000 * wrap64 (24 * keepDays (opt r)))) w
      in prefix r @ delimiter (opt r) @ boundary @ ext r @ (if gzip (opt r) then ''.gz'' else []))"

definition deleteOutdatedFiles :: "RotateWriter \<Rightarrow> world \<Rightarrow> RotateWriter \<times> world" where
  "deleteOutdatedFiles r w =
     (if keepDays (opt r) \<le> 0 then (r, w)
      else (case oldFiles r w of
              (Inl e, w1) \<Rightarrow> (r\<lparr>err := Some e\<rparr>, w1)
            | (Inr fs, w1) \<Rightarrow>
                (case removeBelow (boundaryFile r w1) fs w1 of
                   (Some e, w2) \<Rightarrow> (r\<lparr>err := Some e\<rparr>, w2)
                 | (None, w2) \<Rightarrow> (r, w2))))"

text \<open>The loop of the count sweep.\<close>

fun removeEach :: "string list \<Rightarrow> world \<Rightarrow> error option \<times> world" where
  "removeEach [] w = (None, w)"
| "removeEach (file # fs) w =
     (case osRemove file w of
        (Some e, w') \<Rightarrow> (Some e, w')
      | (None, w') \<Rightarrow> removeEach fs w')"

text \<open>
  \<open>deleteOverMaxFiles\<close> of rotatewriter.go.  The slice expression \<open>oldFiles[:n]\<close> panics
  when \<open>n\<close> is negative.
\<close>

definition deleteOverMaxFiles :: "RotateWriter \<Rightarrow> world \<Rightarrow> unit outcome \<times> RotateWriter \<times> world" where
  "deleteOverMaxFiles r w =
     (if maxBackups (opt r) \<le> 0 then (Returns (), r, w)
      else (case oldFiles r w of
              (Inl e, w1) \<Rightarrow> (Returns (), r\<lparr>err := Some e\<rparr>, w1)
            | (Inr fs, w1) \<Rightarrow>
                (let sorted = sort fs; remain = int (length sorted)
                 in if maxBackups (opt r) \<le> 0 \<and> maxBackups (opt r) \<ge> remain then (Returns (), r, w1)
                    else if remain - maxBackups (opt r) < 0 then (Panics, r, w1)
                    else (case removeEach (take (nat (remain - maxBackups (opt r))) sorted) w1 of
                            (Some e, w2) \<Rightarrow> (Returns (), r\<lparr>err := Some e\<rparr>, w2)
                          | (None, w2) \<Rightarrow> (Returns (), r, w2)))))"

text \<open>\<open>removeOverMaxFiles\<close>, the sibling in the second copy of the file: \<open>||\<close> for \<open>&&\<close>.\<close>

definition removeOverMaxFiles :: "RotateWriter \<Rightarrow> world \<Rightarrow> unit outcome \<times> RotateWriter \<times> world" where
  "removeOverMaxFiles r w =
     (if maxBackups (opt r) \<le> 0 then (Returns (), r, w)
      else (case oldFiles r w of
              (Inl e, w1) \<Rightarrow> (Returns (), r\<lparr>err := Some e\<rparr>, w1)
            | (Inr fs, w1) \<Rightarrow>
                (let sorted = sort fs; remain = int (length sorted)
                 in if maxBackups (opt r) \<le> 0 \<or> maxBackups (opt r) \<ge> remain then (Returns (), r, w1)
                    else if remain - maxBackups (opt r) < 0 then (Panics, r, w1)
                    else (case removeEach (take (nat (remain - maxBackups (opt r))) sorted) w1 of
                            (Some e, w2) \<Rightarrow> (Returns (), r\<lparr>err := Some e\<rparr>, w2)
                          | (None, w2) \<Rightarrow> (Returns (), r, w2)))))"

section \<open>A concrete run\<close>

text \<open>
  The listing of the concrete runs below.  Their names are clean relative paths in one
  directory and their patterns have \<open>*\<close> as only metacharacter, standing for any run of
  characters other than the separator; there \<open>filepath.Glob\<close> returns the existing names
  that match, as they are, in lexical order.
\<close>

fun starMatch :: "string \<Rightarrow> string \<Rightarrow> bool" where
  "starMatch [] s = (s = [])"
| "starMatch (p # ps) s =
     (if p = CHR ''*''
      then list_ex (\<lambda>k. CHR ''/'' \<notin> set (take k s) \<and> starMatch ps (drop k s)) [0 ..< Suc (length s)]
      else (case s of [] \<Rightarrow> False | c # cs \<Rightarrow> c = p \<and> starMatch ps cs))"

definition starListing :: "(string \<times> string) list \<Rightarrow> string \<Rightarrow> string list" where
  "starListing fs pat = sort (filter (starMatch pat) (map fst fs))"

text \<open>
  A world with an empty working directory, one hour east of UTC, in which nothing
  fails; and the writer \<open>NewRotateWriter "app.log"\<close> makes there.
\<close>

definition w_init :: world where
  "w_init = \<lparr> files = [], dirs = [''.''], fds = [], nextfd = 3,
              clock = 1700000000123456789, zone = (\<lambda>t. 3600), fault = (\<lambda>c. None),
              listing = starListing, trace = [] \<rparr>"

definition r_demo :: RotateWriter where
  "r_demo = \<lparr> filename = ''app.log'', prefix = ''app'', ext = ''.log'',
              backupName = ''app-2023-11-14T23:13:20.123.log'', size_w = 0, opt = defaults,
              err = None, postCh = [], postDone = False, fp = Some 3, closeOnce = False,
              done_w = False \<rparr>"

definition w_demo :: world where
  "w_demo = w_init\<lparr> files := [(''app.log'', [])], fds := [(3, ''app.log'')], nextfd := 4,
              trace := [Sys (Stat ''app.log''), Sys (Stat ''.''), Sys (Create ''app.log''), GoPostRotate] \<rparr>"

section \<open>Names for what the sweeps work on\<close>

text \<open>The pattern \<open>oldFiles\<close> hands to \<open>Glob\<close>, and the existing backups: the names the
  world lists for it.\<close>

definition backupPattern :: "RotateWriter \<Rightarrow> string" where
  "backupPattern r =
     prefix r @ delimiter (opt r) @ ''*'' @ ext r @ (if gzip (opt r) then ''.gz'' else [])"

definition backups :: "RotateWriter \<Rightarrow> world \<Rightarrow> string list" where
  "backups r w = listing w (files w) (backupPattern r)"

definition without :: "string list \<Rightarrow> world \<Rightarrow> (string \<times> string) list" where
  "without gone w = filter (\<lambda>(q, d). q \<notin> set gone) (files w)"

text \<open>The writer with \<open>WithMaxBackups(5)\<close>, and directories holding six and two backups.\<close>

definition r_five :: RotateWriter where
  "r_five = r_demo\<lparr>opt := defaults\<lparr>maxBackups := 5\<rparr>\<rparr>"


definition w_two :: world where
  "w_two = w_demo\<lparr>files :=
     [(''app.log'', []),
      (''app-2023-11-12T10:00:00.000.log'', ''d''),
      (''app-2023-11-09T10:00:00.000.log'', ''a'')]\<rparr>"

text \<open>The writer with \<open>WithKeepDays(106752)\<close>, and a directory with one backup older than
  thirty days and one younger.\<close>

definition r_old :: RotateWriter where
  "r_old = r_demo\<lparr>opt := defaults\<lparr>keepDays := 106752\<rparr>\<rparr>"

definition w_age :: world where
  "w_age = w_demo\<lparr>files :=
     [(''app.log'', []),
      (''app-2023-11-09T10:00:00.000.log'', ''b''),
      (''app-2023-10-01T10:00:00.000.log'', ''a'')]\<rparr>"

text \<open>A value is an \<open>int64\<close> when it lies in the range of the type.\<close>

definition int64 :: "int \<Rightarrow> bool" where
  "int64 x = (- 9223372036854775808 \<le> x \<and> x < 9223372036854775808)"

text \<open>
  A rotation retires the active file when it gets as far as a successful rename: the old
  handle (if any) closes, the active file is found, a backup name is at hand, and the
  system carries the rename out.
\<close>

definition retires :: "RotateWriter \<Rightarrow> world \<Rightarrow> bool" where
  "retires r w =
     ((case fp r of None \<Rightarrow> True | Some h \<Rightarrow> is_open w h \<and> fault w (FClose h) = None) \<and>
      fault w (Stat (filename r)) = None \<and> exists_file w (filename r) \<and>
      backupName r \<noteq> [] \<and> fault w (Rename (filename r) (backupName r)) = None)"

text \<open>The same run with the rename refused, with the queue full, and with the file nearly full.\<close>

definition w_norename :: world where
  "w_norename = w_demo\<lparr>fault :=
     (\<lambda>c. if c = Rename ''app.log'' ''app-2023-11-14T23:13:20.123.log''
          then Some (OSError ''permission denied'') else None)\<rparr>"

definition r_full :: RotateWriter where
  "r_full = r_demo\<lparr>size_w := 134217720\<rparr>"

definition r_jam :: RotateWriter where
  "r_jam = r_full\<lparr>postCh := replicate 100 ''app-2023-11-14T23:13:10.000.log''\<rparr>"

text \<open>What the overflowing write of ten bytes makes of the nearly full writer.\<close>

definition r_rotated :: RotateWriter where
  "r_rotated = r_full\<lparr>fp := Some 4, postCh := [''app-2023-11-14T23:13:20.123.log'']\<rparr>"

definition w_rotated :: world where
  "w_rotated = w_demo\<lparr>
     files := [(''app-2023-11-14T23:13:20.123.log'', []), (''app.log'', [])],
     fds := [(4, ''app.log'')], nextfd := 5,
     trace := trace w_demo @
       [Sys (FClose 3), Sys (Stat ''app.log''),
        Sys (Rename ''app.log'' ''app-2023-11-14T23:13:20.123.log''), Sys (Create ''app.log'')]\<rparr>"

definition w_written :: world where
  "w_written = w_rotated\<lparr>
     files := [(''app-2023-11-14T23:13:20.123.log'', []), (''app.log'', ''0123456789'')],
     trace := trace w_rotated @ [Sys (FWrite 4 ''0123456789'')]\<rparr>"

text \<open>The same run with \<open>fsync\<close> refused.\<close>

definition w_nosync :: world where
  "w_nosync = w_demo\<lparr>fault :=
     (\<lambda>c. if c = FSync 3 then Some (OSError ''input/output error'') else None)\<rparr>"

text \<open>
  The writer and the world the refused rename leaves behind; that writer closed, and
  with an error latched by the maintainer; and the first writer closed in good order.
\<close>

definition r_failed :: RotateWriter where
  "r_failed = r_demo\<lparr>fp := None\<rparr>"

definition w_failed :: world where
  "w_failed = w_norename\<lparr>
     trace := trace w_norename @
       [Sys (FClose 3), Sys (Stat ''app.log''),
        Sys (Rename ''app.log'' ''app-2023-11-14T23:13:20.123.log'')],
     fds := []\<rparr>"

definition r_failed_closed :: RotateWriter where
  "r_failed_closed = r_failed\<lparr>closeOnce := True, done_w := True, postDone := True\<rparr>"

definition r_failed_latched :: RotateWriter where
  "r_failed_latched = r_failed\<lparr>err := Some (OSError ''permission denied'')\<rparr>"

definition r_closed :: RotateWriter where
  "r_closed = r_demo\<lparr>closeOnce := True, done_w := True, postDone := True\<rparr>"

definition w_closed :: world where
  "w_closed = w_demo\<lparr>trace := trace w_demo @ [ClosePostDone, Sys (FSync 3), Sys (FClose 3)], fds := []\<rparr>"

section \<open>Names for the order of backup names\<close>

text \<open>The days in the \<open>n\<close> years from year \<open>y\<close> on.\<close>

primrec daysUpto :: "int \<Rightarrow> nat \<Rightarrow> int" where
  "daysUpto y 0 = 0"
| "daysUpto y (Suc n) = daysInYear y + daysUpto (y + 1) n"

text \<open>
  The calendar fields the default layout prints, most significant first, with the
  fraction cut to milliseconds; and the printing of such a list, each field
  zero-padded to its width and followed by its separator.
\<close>

definition wallFields :: "int \<Rightarrow> instant \<Rightarrow> int list" where
  "wallFields off t =
     (let c = civilOf off t
      in [cYear c, cMonth c, cDay c, cHour c, cMinute c, cSecond c, cNano c div 1000000])"

fun render :: "(nat \<times> string) list \<Rightarrow> int list \<Rightarrow> string" where
  "render ((w, sep) # ws) (f # fs) = appendInt f w @ sep @ render ws fs"
| "render ws fs = []"

definition stampShape :: "(nat \<times> string) list" where
  "stampShape = [(4, ''-''), (2, ''-''), (2, ''T''), (2, '':''), (2, '':''), (2, ''.''), (3, [])]"

text \<open>The offset of the wall clock a writer reads at the time of a world.\<close>

definition wallOffset :: "RotateWriter \<Rightarrow> world \<Rightarrow> int" where
  "wallOffset r w = (if localTime (opt r) then zone w (clock w) else 0)"

definition dateFields :: "int \<Rightarrow> int list" where
  "dateFields days =
     (let (y, yd) = yearOfDays days; (m, md) = monthSplit (monthLengths y) 1 yd
      in [y, m, md + 1])"

definition clockFields :: "int \<Rightarrow> int list" where
  "clockFields sod = [sod div 3600, sod mod 3600 div 60, sod mod 60]"

text \<open>A list of fields fits a shape when each field is a natural number of at most
  as many digits as its width.\<close>

definition fits :: "(nat \<times> string) list \<Rightarrow> int list \<Rightarrow> bool" where
  "fits ws fs = list_all2 (\<lambda>(w, sep) f. 1 \<le> w \<and> 0 \<le> f \<and> f < 10 ^ w) ws fs"

text \<open>
  Writers under the UTC policy with the default layouts of the two constant files, and
  a world whose zone goes from two hours east of UTC to one at 2023-10-29T01:00:00Z.
\<close>

definition r_utc :: RotateWriter where
  "r_utc = r_demo\<lparr>opt := defaults\<lparr>localTime := False\<rparr>\<rparr>"

definition r_utc_c :: RotateWriter where
  "r_utc_c = r_demo\<lparr>opt := defaults_c\<lparr>localTime := False\<rparr>\<rparr>"

definition w_dst :: world where
  "w_dst = w_demo\<lparr>zone := (\<lambda>t. if t < 1698541200000000000 then 7200 else 3600)\<rparr>"

section \<open>Properties\<close>

subsection \<open>The concrete run is a run\<close>

lemma Format_demo:
  "Format (civilOf 3600 1700000000123456789) ''2006-01-02T15:04:05.000'' = ''2023-11-14T23:13:20.123''"
  by code_simp

lemma Ext_demo: "Ext ''app.log'' = ''.log''"
  by code_simp

lemma Dir_demo: "Dir ''app.log'' = ''.''"
  by code_simp

lemma NewRotateWriter_demo:
  "NewRotateWriter ''app.log'' [] w_init = ((Some r_demo, None), w_demo)"
  by (simp add: NewRotateWriter_def init_def blank_def w_init_def r_demo_def w_demo_def
      backupFileName_def nowDate_def defaults_def defaultTimeFormat_def defaultDelimiter_def
      Format_demo Ext_demo Dir_demo osStat_def osCreate_def emit_def exists_file_def open_fd_def
      put_file_def Let_def)

subsection \<open>Oversize payloads\<close>

text \<open>
  Claim C7, as the code has it.  A payload longer than \<open>maxSize\<close> is refused with 0 bytes
  written: the writer (and so its size counter) and the world (its files, and the trace
  of system calls) are what they were.  The error is the oversize error on a writer that
  is not closed; the check for a closed writer comes first, and on a closed writer the
  error is the closed error.
\<close>

theorem Write_oversize:
  "int (length p) > maxSize (opt r) \<Longrightarrow>
   Write p r w = (Returns (0, Some (if done_w r then ErrLogFileClosed else ErrDataOversize)), r, w)"
  by (simp add: Write_def)

theorem Write_oversize_witness:
  "int (length (replicate 134217729 (CHR ''x''))) > maxSize (opt r_demo) \<and>
   Write (replicate 134217729 (CHR ''x'')) r_demo w_demo
     = (Returns (0, Some ErrDataOversize), r_demo, w_demo)"
  using Write_oversize [of r_demo "replicate 134217729 (CHR ''x'')" w_demo]
  by (simp add: r_demo_def defaults_def defaultMaxSize_def megabyte_def)

text \<open>Once the writer is closed, the oversize payload gets the closed error.\<close>

theorem Write_oversize_counterexample:
  "Close r_demo w_demo = (None, r_closed, w_closed) \<and>
   int (length (replicate 134217729 (CHR ''x''))) > maxSize (opt r_closed) \<and>
   Write (replicate 134217729 (CHR ''x'')) r_closed w_closed
     = (Returns (0, Some ErrLogFileClosed), r_closed, w_closed) \<and>
   ErrLogFileClosed \<noteq> ErrDataOversize"
proof -
  have 1: "Close r_demo w_demo = (None, r_closed, w_closed)"
    by (simp add: Close_def fileSync_def fileClose_def emit_def is_open_def Let_def
        r_closed_def w_closed_def r_demo_def w_demo_def w_init_def)
  have 2: "int (length (replicate 134217729 (CHR ''x''))) > maxSize (opt r_closed)"
    by (simp add: r_closed_def r_demo_def defaults_def defaultMaxSize_def megabyte_def)
  have 3: "Write (replicate 134217729 (CHR ''x'')) r_closed w_closed
     = (Returns (0, Some ErrLogFileClosed), r_closed, w_closed)"
    by (simp add: Write_def r_closed_def)
  show ?thesis
    using 1 2 3 by simp
qed

subsection \<open>System calls, one at a time\<close>

lemma wrap64_int64: "int64 x \<Longrightarrow> wrap64 x = x"
  by (simp add: int64_def wrap64_def)

lemma fileClose_ok:
  "is_open w h \<Longrightarrow> fault w (FClose h) = None \<Longrightarrow>
   fileClose h w = (None, w\<lparr>trace := trace w @ [Sys (FClose h)], fds := filter (\<lambda>(k, p). k \<noteq> h) (fds w)\<rparr>)"
  by (simp add: fileClose_def emit_def Let_def)

lemma fileClose_trace: "trace (snd (fileClose h w)) = trace w @ [Sys (FClose h)]"
  by (simp add: fileClose_def emit_def Let_def)

lemma fileClose_fault [simp]: "fault (snd (fileClose h w)) = fault w"
  by (simp add: fileClose_def emit_def Let_def)

lemma fileWrite_trace: "fileWrite h p w = (e, w') \<Longrightarrow> trace w' = trace w @ [Sys (FWrite h p)]"
  by (auto simp: fileWrite_def emit_def Let_def split: option.splits if_splits)

lemma osCreate_trace: "osCreate p w = (x, w') \<Longrightarrow> trace w' = trace w @ [Sys (Create p)]"
  by (auto simp: osCreate_def emit_def open_fd_def Let_def split: option.splits if_splits)

lemma osStat_trace: "osStat p w = (x, w') \<Longrightarrow> trace w' = trace w @ [Sys (Stat p)]"
  by (auto simp: osStat_def emit_def Let_def split: option.splits if_splits)

lemma osRename_trace: "osRename a b w = (x, w') \<Longrightarrow> trace w' = trace w @ [Sys (Rename a b)]"
  by (auto simp: osRename_def emit_def Let_def split: option.splits if_splits)

lemma reopen_cases:
  "reopen r w = (res, r1, w1) \<Longrightarrow>
     trace w1 = trace w @ [Sys (Create (filename r))] \<and> postCh r1 = postCh r \<and>
     filename r1 = filename r \<and> opt r1 = opt r \<and> size_w r1 = size_w r \<and>
     ((res = Returns None \<and> fp r1 \<noteq> None) \<or> (\<exists>e. res = Returns (Some e) \<and> fp r1 = None))"
  by (auto simp: reopen_def Let_def split: prod.splits sum.splits dest: osCreate_trace)

lemma closeOld_ok:
  "(case fp r of None \<Rightarrow> True | Some h \<Rightarrow> is_open w h \<and> fault w (FClose h) = None) \<Longrightarrow>
   closeOld r w =
     (None, r\<lparr>fp := None\<rparr>,
      (case fp r of None \<Rightarrow> w
       | Some h \<Rightarrow> w\<lparr>trace := trace w @ [Sys (FClose h)], fds := filter (\<lambda>(k, p). k \<noteq> h) (fds w)\<rparr>))"
  by (cases "fp r") (simp_all add: closeOld_def fileClose_ok)

lemma closeOld_fails:
  "\<not> (case fp r of None \<Rightarrow> True | Some h \<Rightarrow> is_open w h \<and> fault w (FClose h) = None) \<Longrightarrow>
   \<exists>e w1. closeOld r w = (Some e, r, w1)"
  by (cases "fp r") (auto simp: closeOld_def fileClose_def emit_def Let_def)

lemma closeOld_world:
  "closeOld r w = (ce, r1, w1) \<Longrightarrow>
     files w1 = files w \<and> dirs w1 = dirs w \<and> fault w1 = fault w \<and> clock w1 = clock w \<and> zone w1 = zone w \<and>
     (\<exists>evs. trace w1 = trace w @ evs \<and> (\<forall>c. Sys (Create c) \<notin> set evs) \<and> (\<forall>k d. Sys (FWrite k d) \<notin> set evs))"
  by (cases "fp r") (auto simp: closeOld_def fileClose_def emit_def Let_def split: if_splits option.splits)

lemma osStat_world:
  "osStat p w = (se, w2) \<Longrightarrow>
     w2 = w\<lparr>trace := trace w @ [Sys (Stat p)]\<rparr> \<and>
     (se = None \<longleftrightarrow> fault w (Stat p) = None \<and> (exists_file w p \<or> p \<in> set (dirs w)))"
  by (auto simp: osStat_def emit_def Let_def split: option.splits if_splits)

lemma osRename_world:
  "osRename a b w = (re, w3) \<Longrightarrow>
     trace w3 = trace w @ [Sys (Rename a b)] \<and>
     (re = None \<longleftrightarrow> fault w (Rename a b) = None \<and> exists_file w a)"
  by (auto simp: osRename_def emit_def Let_def split: option.splits if_splits)

subsection \<open>Rotation\<close>

lemma reopen_facts:
  "reopen r w = (res, r1, w1) \<Longrightarrow>
     trace w1 = trace w @ [Sys (Create (filename r))] \<and> postCh r1 = postCh r \<and>
     opt r1 = opt r \<and> res \<noteq> Blocks \<and> res \<noteq> Panics \<and> (res = Returns None \<longrightarrow> fp r1 \<noteq> None)"
  using reopen_cases [of r w res r1 w1] by auto

lemma rotate_facts:
  "\<exists>res r1 w1. rotate r w = (res, r1, w1) \<and>
     (res = Blocks \<longleftrightarrow> retires r w \<and> 100 \<le> length (postCh r)) \<and> res \<noteq> Panics \<and>
     postCh r1 = (if retires r w \<and> length (postCh r) < 100 then postCh r @ [backupName r] else postCh r) \<and>
     opt r1 = opt r \<and>
     (res = Returns None \<longrightarrow> fp r1 \<noteq> None \<and>
        (\<exists>evs. trace w1 = trace w @ evs @ [Sys (Create (filename r))] \<and>
               (\<forall>c. Sys (Create c) \<notin> set evs) \<and> (\<forall>k d. Sys (FWrite k d) \<notin> set evs)))"
proof (cases "case fp r of None \<Rightarrow> True | Some h \<Rightarrow> is_open w h \<and> fault w (FClose h) = None")
  case False
  then obtain e w1 where "closeOld r w = (Some e, r, w1)"
    using closeOld_fails by blast
  then show ?thesis
    using False by (simp add: rotate_def retires_def)
next
  case True
  define r0 where "r0 = r\<lparr>fp := None\<rparr>"
  obtain w0 where c: "closeOld r w = (None, r0, w0)"
    using closeOld_ok [OF True] by (simp add: r0_def)
  have w0: "files w0 = files w" "dirs w0 = dirs w" "fault w0 = fault w"
    using closeOld_world [OF c] by simp_all
  obtain evs0 where t0: "trace w0 = trace w @ evs0" "\<forall>c. Sys (Create c) \<notin> set evs0"
      "\<forall>k d. Sys (FWrite k d) \<notin> set evs0"
    using closeOld_world [OF c] by blast
  obtain se w2 where st: "osStat (filename r0) w0 = (se, w2)"
    by (cases "osStat (filename r0) w0")
  note st' = osStat_world [OF st]
  have w2: "files w2 = files w" "fault w2 = fault w"
    using st' w0 by simp_all
  have t2: "trace w2 = trace w @ (evs0 @ [Sys (Stat (filename r))])"
    using st' t0 by (simp add: r0_def)
  have r0: "postCh r0 = postCh r" "backupName r0 = backupName r" "filename r0 = filename r"
      "opt r0 = opt r"
    by (simp_all add: r0_def)
  show ?thesis
  proof (cases "se = None \<and> backupName r \<noteq> []")
    case False
    obtain res r1 w1 where ro: "reopen r0 w2 = (res, r1, w1)"
      by (cases "reopen r0 w2")
    note ro' = reopen_facts [OF ro]
    have "rotate r w = (res, r1, w1)"
      using c st False ro by (auto simp: rotate_def r0)
    moreover have "\<not> retires r w"
      using False st' w0 True by (auto simp: retires_def exists_file_def r0)
    moreover have "trace w1 = trace w @ (evs0 @ [Sys (Stat (filename r))]) @ [Sys (Create (filename r))]"
      using ro' t2 by (simp add: r0)
    moreover have "\<forall>c. Sys (Create c) \<notin> set (evs0 @ [Sys (Stat (filename r))])"
      "\<forall>k d. Sys (FWrite k d) \<notin> set (evs0 @ [Sys (Stat (filename r))])"
      using t0 by simp_all
    ultimately show ?thesis
      using ro' by (simp add: r0; blast)
  next
    case stat_ok: True
    obtain re w3 where rn: "osRename (filename r0) (backupName r0) w2 = (re, w3)"
      by (cases "osRename (filename r0) (backupName r0) w2")
    note rn' = osRename_world [OF rn]
    have ret: "retires r w \<longleftrightarrow> re = None"
      using rn' stat_ok st' w0 w2 True by (auto simp: retires_def exists_file_def r0)
    let ?evs = "evs0 @ [Sys (Stat (filename r)), Sys (Rename (filename r) (backupName r))]"
    have t3: "trace w3 = trace w @ ?evs"
      using rn' t2 by (simp add: r0)
    show ?thesis
    proof (cases re)
      case (Some e)
      then have "rotate r w = (Returns (Some e), r0, w3)"
        using c st stat_ok rn by (simp add: rotate_def r0)
      then show ?thesis
        using ret Some by (simp add: r0)
    next
      case None
      show ?thesis
      proof (cases "100 \<le> length (postCh r)")
        case full: True
        have "rotate r w = (Blocks, r0, w3)"
          using c st stat_ok rn None full by (simp add: rotate_def r0)
        then show ?thesis
          using ret None full by (simp add: r0)
      next
        case room: False
        obtain res r1 w1 where ro: "reopen (r0\<lparr>postCh := postCh r0 @ [backupName r0]\<rparr>) w3 = (res, r1, w1)"
          by (cases "reopen (r0\<lparr>postCh := postCh r0 @ [backupName r0]\<rparr>) w3")
        note ro' = reopen_facts [OF ro]
        have "rotate r w = (res, r1, w1)"
          using c st stat_ok rn None room ro by (simp add: rotate_def r0)
        moreover have "trace w1 = trace w @ ?evs @ [Sys (Create (filename r))]"
          using ro' t3 by (simp add: r0)
        moreover have "\<forall>c. Sys (Create c) \<notin> set ?evs" "\<forall>k d. Sys (FWrite k d) \<notin> set ?evs"
          using t0 by simp_all
        ultimately show ?thesis
          using ret None room ro' by (simp add: r0; blast)
      qed
    qed
  qed
qed

lemma rotate_rename_fails:
  assumes "fp r = Some h" and "is_open w h" and "fault w (FClose h) = None"
      and "fault w (Stat (filename r)) = None" and "exists_file w (filename r)"
      and "backupName r \<noteq> []"
      and "fault w (Rename (filename r) (backupName r)) = Some e"
  shows "rotate r w =
           (Returns (Some e), r\<lparr>fp := None\<rparr>,
            w\<lparr>trace := trace w @ [Sys (FClose h), Sys (Stat (filename r)),
                                    Sys (Rename (filename r) (backupName r))],
              fds := filter (\<lambda>(k, p). k \<noteq> h) (fds w)\<rparr>)"
proof -
  have "closeOld r w = (None, r\<lparr>fp := None\<rparr>,
          w\<lparr>trace := trace w @ [Sys (FClose h)], fds := filter (\<lambda>(k, p). k \<noteq> h) (fds w)\<rparr>)"
    using closeOld_ok [where r = r and w = w] assms by simp
  then show ?thesis
    using assms
    by (simp add: rotate_def osStat_def osRename_def emit_def exists_file_def Let_def)
qed

lemma Write_no_handle:
  assumes "fp r = None" and "\<not> done_w r" and "err r = None"
      and "0 \<le> size_w r" and "int64 (maxSize (opt r))"
      and "size_w r + int (length p) \<le> maxSize (opt r)"
  shows "Write p r w = (Returns (int (length p), None), r, w)"
proof -
  have "int64 (size_w r + int (length p))"
    using assms by (simp add: int64_def)
  then have "wrap64 (size_w r + int (length p)) = size_w r + int (length p)"
    by (rule wrap64_int64)
  then have "write' p r w = (Returns None, r, w)"
    using assms by (simp add: write'_def Let_def)
  moreover have "\<not> int (length p) > maxSize (opt r)"
    using assms by simp
  ultimately show ?thesis
    using assms by (simp add: Write_def Let_def)
qed

subsection \<open>Writing after a rotation that failed\<close>

lemma Write_closed: "done_w r \<Longrightarrow> Write p r w = (Returns (0, Some ErrLogFileClosed), r, w)"
  by (simp add: Write_def)

lemma Write_latched:
  "\<not> done_w r \<Longrightarrow> int (length p) \<le> maxSize (opt r) \<Longrightarrow> err r = Some e \<Longrightarrow>
   Write p r w = (Returns (0, Some e), r\<lparr>err := None\<rparr>, w)"
  by (simp add: Write_def Let_def)

text \<open>
  Claim C5, as the code has it.  A rotation that has closed the old handle and is then
  refused the rename returns the error and leaves the writer without a handle.  While
  the writer has no handle, a \<open>Write\<close> that finds it open and with no maintenance error
  latched, and whose payload still fits (\<open>size + len(p) <= maxSize\<close>), reports
  \<open>(len(p), nil)\<close> and changes neither the writer, its size counter included, nor the
  world: no byte is written, no system call made.  On a closed writer \<open>Write\<close> returns
  the closed error instead, and a latched maintenance error is returned, and cleared,
  by the next \<open>Write\<close> of a payload within \<open>maxSize\<close>; neither writes a byte.
\<close>

theorem Write_after_failed_rotate:
  assumes "fp r = Some h" and "is_open w h" and "fault w (FClose h) = None"
      and "fault w (Stat (filename r)) = None" and "exists_file w (filename r)"
      and "backupName r \<noteq> []"
      and "fault w (Rename (filename r) (backupName r)) = Some e"
  shows "rotate r w =
           (Returns (Some e), r\<lparr>fp := None\<rparr>,
            w\<lparr>trace := trace w @ [Sys (FClose h), Sys (Stat (filename r)),
                                    Sys (Rename (filename r) (backupName r))],
              fds := filter (\<lambda>(k, p). k \<noteq> h) (fds w)\<rparr>) \<and>
         (\<forall>p r' w'. fp r' = None \<longrightarrow> \<not> done_w r' \<longrightarrow> err r' = None \<longrightarrow>
                    0 \<le> size_w r' \<longrightarrow> int64 (maxSize (opt r')) \<longrightarrow>
                    size_w r' + int (length p) \<le> maxSize (opt r') \<longrightarrow>
                    Write p r' w' = (Returns (int (length p), None), r', w')) \<and>
         (\<forall>p r' w'. done_w r' \<longrightarrow> Write p r' w' = (Returns (0, Some ErrLogFileClosed), r', w')) \<and>
         (\<forall>p r' w' e'. \<not> done_w r' \<longrightarrow> int (length p) \<le> maxSize (opt r') \<longrightarrow> err r' = Some e' \<longrightarrow>
                    Write p r' w' = (Returns (0, Some e'), r'\<lparr>err := None\<rparr>, w'))"
  using rotate_rename_fails [OF assms] Write_no_handle Write_closed Write_latched by blast

theorem Write_after_failed_rotate_witness:
  "fp r_demo = Some 3 \<and> is_open w_norename 3 \<and> fault w_norename (FClose 3) = None \<and>
   fault w_norename (Stat (filename r_demo)) = None \<and> exists_file w_norename (filename r_demo) \<and>
   backupName r_demo \<noteq> [] \<and>
   fault w_norename (Rename (filename r_demo) (backupName r_demo)) = Some (OSError ''permission denied'') \<and>
   rotate r_demo w_norename =
     (Returns (Some (OSError ''permission denied'')), r_demo\<lparr>fp := None\<rparr>,
      w_norename\<lparr>trace := trace w_norename @
                     [Sys (FClose 3), Sys (Stat ''app.log''),
                      Sys (Rename ''app.log'' ''app-2023-11-14T23:13:20.123.log'')],
                 fds := []\<rparr>) \<and>
   Write ''hello'' (r_demo\<lparr>fp := None\<rparr>) w_norename
     = (Returns (5, None), r_demo\<lparr>fp := None\<rparr>, w_norename)"
proof -
  have a: "fp r_demo = Some 3" "is_open w_norename 3" "fault w_norename (FClose 3) = None"
      "fault w_norename (Stat (filename r_demo)) = None" "exists_file w_norename (filename r_demo)"
      "backupName r_demo \<noteq> []"
      "fault w_norename (Rename (filename r_demo) (backupName r_demo)) = Some (OSError ''permission denied'')"
    by (simp_all add: r_demo_def w_norename_def w_demo_def w_init_def is_open_def exists_file_def)
  note T = Write_after_failed_rotate [OF a]
  from T have W: "fp r' = None \<Longrightarrow> \<not> done_w r' \<Longrightarrow> err r' = None \<Longrightarrow> 0 \<le> size_w r' \<Longrightarrow>
      int64 (maxSize (opt r')) \<Longrightarrow> size_w r' + int (length p) \<le> maxSize (opt r') \<Longrightarrow>
      Write p r' w' = (Returns (int (length p), None), r', w')" for p r' w'
    by blast
  have "Write ''hello'' (r_demo\<lparr>fp := None\<rparr>) w_norename
     = (Returns (int (length ''hello''), None), r_demo\<lparr>fp := None\<rparr>, w_norename)"
    by (rule W) (simp_all add: r_demo_def defaults_def defaultMaxSize_def megabyte_def int64_def)
  then show ?thesis
    using T a by (simp add: r_demo_def w_norename_def w_demo_def w_init_def)
qed

text \<open>
  After that failed rotation the writer is closed, or the maintainer latches an error of
  its own: the next \<open>Write\<close> of five bytes, which fit, returns 0 and an error.
\<close>

theorem Write_after_failed_rotate_counterexample:
  "rotate r_demo w_norename = (Returns (Some (OSError ''permission denied'')), r_failed, w_failed) \<and>
   fp r_failed = None \<and>
   size_w r_failed + int (length ''hello'') \<le> maxSize (opt r_failed) \<and>
   Close r_failed w_failed = (Some ErrInvalid, r_failed_closed, w_failed\<lparr>trace := trace w_failed @ [ClosePostDone]\<rparr>) \<and>
   Write ''hello'' r_failed_closed (w_failed\<lparr>trace := trace w_failed @ [ClosePostDone]\<rparr>)
     = (Returns (0, Some ErrLogFileClosed), r_failed_closed, w_failed\<lparr>trace := trace w_failed @ [ClosePostDone]\<rparr>) \<and>
   Write ''hello'' r_failed_latched w_failed
     = (Returns (0, Some (OSError ''permission denied'')), r_failed, w_failed)"
proof -
  have a: "fp r_demo = Some 3" "is_open w_norename 3" "fault w_norename (FClose 3) = None"
      "fault w_norename (Stat (filename r_demo)) = None" "exists_file w_norename (filename r_demo)"
      "backupName r_demo \<noteq> []"
      "fault w_norename (Rename (filename r_demo) (backupName r_demo)) = Some (OSError ''permission denied'')"
    by (simp_all add: r_demo_def w_norename_def w_demo_def w_init_def is_open_def exists_file_def)
  have 1: "rotate r_demo w_norename = (Returns (Some (OSError ''permission denied'')), r_failed, w_failed)"
    using rotate_rename_fails [OF a]
    by (simp add: r_failed_def w_failed_def) (simp add: r_demo_def w_norename_def w_demo_def w_init_def)
  have 2: "fp r_failed = None"
    by (simp add: r_failed_def)
  have 3: "size_w r_failed + int (length ''hello'') \<le> maxSize (opt r_failed)"
    by (simp add: r_failed_def r_demo_def defaults_def defaultMaxSize_def megabyte_def)
  have 4: "Close r_failed w_failed = (Some ErrInvalid, r_failed_closed, w_failed\<lparr>trace := trace w_failed @ [ClosePostDone]\<rparr>)"
    by (simp add: Close_def emit_def Let_def r_failed_closed_def r_failed_def r_demo_def)
  have 5: "Write ''hello'' r_failed_closed (w_failed\<lparr>trace := trace w_failed @ [ClosePostDone]\<rparr>)
     = (Returns (0, Some ErrLogFileClosed), r_failed_closed, w_failed\<lparr>trace := trace w_failed @ [ClosePostDone]\<rparr>)"
    by (simp add: Write_def r_failed_closed_def)
  have 6: "Write ''hello'' r_failed_latched w_failed
     = (Returns (0, Some (OSError ''permission denied'')), r_failed, w_failed)"
    by (simp add: Write_def Let_def r_failed_latched_def r_failed_def r_demo_def defaults_def
        defaultMaxSize_def megabyte_def)
  show ?thesis
    using 1 2 3 4 5 6 by (intro conjI)
qed

subsection \<open>The hand-off queue\<close>

text \<open>
  While fewer than 100 names are pending, \<open>rotate\<close> returns, and the queue afterwards is
  the old one followed by the retired name if the rotation retired a file, and the old
  one otherwise.
\<close>

lemma rotate_enqueues:
  "length (postCh r) < 100 \<Longrightarrow>
   \<exists>res r1 w1. rotate r w = (Returns res, r1, w1) \<and>
     postCh r1 = (if retires r w then postCh r @ [backupName r] else postCh r)"
proof -
  assume room: "length (postCh r) < 100"
  obtain res r1 w1 where f: "rotate r w = (res, r1, w1)"
      "res = Blocks \<longleftrightarrow> retires r w \<and> 100 \<le> length (postCh r)" "res \<noteq> Panics"
      "postCh r1 = (if retires r w \<and> length (postCh r) < 100 then postCh r @ [backupName r] else postCh r)"
    using rotate_facts [of r w] by blast
  from f(2,3) room obtain x where "res = Returns x"
    by (cases res) auto
  then show ?thesis
    using f(1,4) room by simp
qed

lemma retires_demo: "retires r_demo w_demo"
  by (simp add: retires_def r_demo_def w_demo_def w_init_def is_open_def exists_file_def)

text \<open>
  Claim C10.  The channel is made with room for 100 names and the comment
  \<open>no block channel\<close>, and \<open>rotate\<close> sends on it with a plain send.  With 100 names
  pending and the active file eight bytes short of full, the rotation retires the file
  and then waits in the send: neither \<open>rotate\<close> nor the \<open>Write\<close> of ten bytes that called
  it returns.
\<close>

theorem rotate_blocks_when_full:
  "length (postCh r_jam) = 100 \<and> retires r_jam w_demo \<and>
   fst (rotate r_jam w_demo) = Blocks \<and>
   fst (Write ''0123456789'' r_jam w_demo) = Blocks"
proof -
  have ret: "retires r_jam w_demo"
    by (simp add: retires_def r_jam_def r_full_def r_demo_def w_demo_def w_init_def is_open_def exists_file_def)
  have len: "length (postCh r_jam) = 100"
    by (simp add: r_jam_def)
  obtain res r1 w1 where f: "rotate r_jam w_demo = (res, r1, w1)"
      "res = Blocks \<longleftrightarrow> retires r_jam w_demo \<and> 100 \<le> length (postCh r_jam)"
    using rotate_facts [of r_jam w_demo] by blast
  have rot: "rotate r_jam w_demo = (Blocks, r1, w1)"
    using f ret len by simp
  have b: "\<not> done_w r_jam" "err r_jam = None"
      "int (length ''0123456789'') \<le> maxSize (opt r_jam)"
      "size_w r_jam + int (length ''0123456789'') > maxSize (opt r_jam)"
    by (simp_all add: r_jam_def r_full_def r_demo_def defaults_def defaultMaxSize_def megabyte_def)
  have sum: "wrap64 (size_w r_jam + int (length ''0123456789'')) = size_w r_jam + int (length ''0123456789'')"
    by (rule wrap64_int64) (simp add: int64_def r_jam_def r_full_def r_demo_def)
  have "write' ''0123456789'' r_jam w_demo = (Blocks, r1, w1)"
    using b(4) sum rot by (simp add: write'_def Let_def)
  then have "Write ''0123456789'' r_jam w_demo = (Blocks, r1, w1)"
    using b by (simp add: Write_def Let_def)
  then show ?thesis
    using ret len rot by simp
qed

subsection \<open>The write that overflows\<close>

text \<open>
  Claim C6, as the code has it.  On an open writer with no latched error, a payload that fits \<open>maxSize\<close> by
  itself but not on top of the current size makes \<open>Write\<close> rotate once and then append:
  given that the rotation and the append succeed, the result is the state the one
  rotation left, with the payload appended by one \<open>File.Write\<close> and the size counter
  equal to \<open>len(p)\<close>; the trace of the call has exactly one \<open>Create\<close>, that of the fresh
  active file, directly before its only \<open>File.Write\<close>.
\<close>

theorem Write_rotates_once:
  assumes nd: "\<not> done_w r" and ne: "err r = None"
      and le: "int (length p) \<le> maxSize (opt r)" and i64: "int64 (maxSize (opt r))"
      and ov: "size_w r + int (length p) > maxSize (opt r)"
      and fit: "int64 (size_w r + int (length p))"
      and rot: "rotate r w = (Returns None, r1, w1)"
      and h: "fp r1 = Some h"
      and fw: "fileWrite h p w1 = (None, w2)"
  shows "Write p r w = (Returns (int (length p), None), r1\<lparr>size_w := int (length p)\<rparr>, w2) \<and>
         (\<exists>evs. trace w2 = trace w @ evs @ [Sys (Create (filename r)), Sys (FWrite h p)] \<and>
                (\<forall>c. Sys (Create c) \<notin> set evs) \<and> (\<forall>k d. Sys (FWrite k d) \<notin> set evs))"
proof
  have sum: "wrap64 (size_w r + int (length p)) = size_w r + int (length p)"
    using fit by (rule wrap64_int64)
  have "int64 (int (length p))"
    using le i64 by (simp add: int64_def)
  then have len: "wrap64 (int (length p)) = int (length p)"
    by (rule wrap64_int64)
  have "write' p r w = (Returns None, r1\<lparr>size_w := int (length p)\<rparr>, w2)"
    using ov sum rot h fw len by (simp add: write'_def Let_def)
  then show "Write p r w = (Returns (int (length p), None), r1\<lparr>size_w := int (length p)\<rparr>, w2)"
    using nd ne le by (simp add: Write_def Let_def)
  obtain evs where "trace w1 = trace w @ evs @ [Sys (Create (filename r))]"
      "\<forall>c. Sys (Create c) \<notin> set evs" "\<forall>k d. Sys (FWrite k d) \<notin> set evs"
    using rotate_facts [of r w] rot by auto
  moreover have "trace w2 = trace w1 @ [Sys (FWrite h p)]"
    using fw by (rule fileWrite_trace)
  ultimately show "\<exists>evs. trace w2 = trace w @ evs @ [Sys (Create (filename r)), Sys (FWrite h p)] \<and>
                (\<forall>c. Sys (Create c) \<notin> set evs) \<and> (\<forall>k d. Sys (FWrite k d) \<notin> set evs)"
    by auto
qed

lemma rotate_full: "rotate r_full w_demo = (Returns None, r_rotated, w_rotated)"
  by (simp add: rotate_def closeOld_def fileClose_def osStat_def osRename_def reopen_def osCreate_def
      open_fd_def emit_def exists_file_def is_open_def put_file_def del_file_def contents_def
      backupFileName_def nowDate_def Format_demo
      r_full_def r_rotated_def w_rotated_def r_demo_def w_demo_def w_init_def defaults_def
      defaultTimeFormat_def defaultDelimiter_def Let_def)

lemma fileWrite_rotated: "fileWrite 4 ''0123456789'' w_rotated = (None, w_written)"
  by (simp add: fileWrite_def emit_def exists_file_def put_file_def contents_def
      w_written_def w_rotated_def w_demo_def w_init_def Let_def)

theorem Write_rotates_once_witness:
  "\<not> done_w r_full \<and> err r_full = None \<and>
   int (length ''0123456789'') \<le> maxSize (opt r_full) \<and> int64 (maxSize (opt r_full)) \<and>
   size_w r_full + int (length ''0123456789'') > maxSize (opt r_full) \<and>
   int64 (size_w r_full + int (length ''0123456789'')) \<and>
   rotate r_full w_demo = (Returns None, r_rotated, w_rotated) \<and> fp r_rotated = Some 4 \<and>
   fileWrite 4 ''0123456789'' w_rotated = (None, w_written) \<and>
   Write ''0123456789'' r_full w_demo = (Returns (10, None), r_rotated\<lparr>size_w := 10\<rparr>, w_written)"
proof -
  have a: "\<not> done_w r_full" "err r_full = None"
      "int (length ''0123456789'') \<le> maxSize (opt r_full)" "int64 (maxSize (opt r_full))"
      "size_w r_full + int (length ''0123456789'') > maxSize (opt r_full)"
      "int64 (size_w r_full + int (length ''0123456789''))"
    by (simp_all add: r_full_def r_demo_def defaults_def defaultMaxSize_def megabyte_def int64_def)
  have h: "fp r_rotated = Some 4"
    by (simp add: r_rotated_def)
  show ?thesis
    using Write_rotates_once [OF a rotate_full h fileWrite_rotated] a rotate_full h fileWrite_rotated
    by simp
qed

text \<open>
  The rotation refused the rename: the overflowing write of ten bytes returns the error,
  nothing is appended, and the size counter stays where it was.  And with a maintenance
  error latched the same write returns that error without rotating at all.
\<close>

theorem Write_rotates_once_counterexample:
  "\<not> done_w r_full \<and> err r_full = None \<and>
   int (length ''0123456789'') \<le> maxSize (opt r_full) \<and>
   size_w r_full + int (length ''0123456789'') > maxSize (opt r_full) \<and>
   Write ''0123456789'' r_full w_norename =
     (Returns (0, Some (OSError ''permission denied'')), r_full\<lparr>fp := None\<rparr>, w_failed) \<and>
   size_w (r_full\<lparr>fp := None\<rparr>) = 134217720 \<and>
   files w_failed = files w_norename \<and>
   Write ''0123456789'' (r_full\<lparr>err := Some (OSError ''permission denied'')\<rparr>) w_demo =
     (Returns (0, Some (OSError ''permission denied'')), r_full, w_demo)"
proof -
  have a: "fp r_full = Some 3" "is_open w_norename 3" "fault w_norename (FClose 3) = None"
      "fault w_norename (Stat (filename r_full)) = None" "exists_file w_norename (filename r_full)"
      "backupName r_full \<noteq> []"
      "fault w_norename (Rename (filename r_full) (backupName r_full)) = Some (OSError ''permission denied'')"
    by (simp_all add: r_full_def r_demo_def w_norename_def w_demo_def w_init_def is_open_def exists_file_def)
  have rot: "rotate r_full w_norename = (Returns (Some (OSError ''permission denied'')), r_full\<lparr>fp := None\<rparr>, w_failed)"
    using rotate_rename_fails [OF a]
    by (simp add: w_failed_def) (simp add: r_full_def r_demo_def w_norename_def w_demo_def w_init_def)
  have b: "\<not> done_w r_full" "err r_full = None"
      "int (length ''0123456789'') \<le> maxSize (opt r_full)"
      "size_w r_full + int (length ''0123456789'') > maxSize (opt r_full)"
    by (simp_all add: r_full_def r_demo_def defaults_def defaultMaxSize_def megabyte_def)
  have sum: "wrap64 (size_w r_full + int (length ''0123456789'')) = size_w r_full + int (length ''0123456789'')"
    by (rule wrap64_int64) (simp add: int64_def r_full_def r_demo_def)
  have wr: "write' ''0123456789'' r_full w_norename =
     (Returns (Some (OSError ''permission denied'')), r_full\<lparr>fp := None\<rparr>, w_failed)"
    using b(4) sum rot by (simp add: write'_def Let_def)
  have 1: "Write ''0123456789'' r_full w_norename =
     (Returns (0, Some (OSError ''permission denied'')), r_full\<lparr>fp := None\<rparr>, w_failed)"
    using b wr by (simp add: Write_def Let_def)
  have 2: "size_w (r_full\<lparr>fp := None\<rparr>) = 134217720"
    by (simp add: r_full_def)
  have 3: "files w_failed = files w_norename"
    by (simp add: w_failed_def)
  have 4: "Write ''0123456789'' (r_full\<lparr>err := Some (OSError ''permission denied'')\<rparr>) w_demo =
     (Returns (0, Some (OSError ''permission denied'')), r_full, w_demo)"
    by (simp add: Write_def Let_def r_full_def r_demo_def defaults_def defaultMaxSize_def megabyte_def)
  show ?thesis
    using b 1 2 3 4 by (intro conjI)
qed

subsection \<open>Closing twice\<close>

text \<open>
  Claim C2, as the code has it.  On a writer not yet closed, the first \<open>Close\<close> marks it
  closed, closes \<open>postDone\<close>, syncs the handle once and, if the sync succeeded, closes it
  once; the second \<open>Close\<close> does nothing and returns nil.  So the two results agree
  exactly when the first is nil.
\<close>

theorem Close_twice:
  assumes "\<not> closeOnce r"
  shows "\<exists>e1 w1. Close r w = (e1, r\<lparr>closeOnce := True, done_w := True, postDone := True\<rparr>, w1) \<and>
           Close (r\<lparr>closeOnce := True, done_w := True, postDone := True\<rparr>) w1
             = (None, r\<lparr>closeOnce := True, done_w := True, postDone := True\<rparr>, w1) \<and>
           (case fp r of
              None \<Rightarrow> e1 = Some ErrInvalid \<and> trace w1 = trace w @ [ClosePostDone]
            | Some h \<Rightarrow>
                if is_open w h \<and> fault w (FSync h) = None
                then e1 = fault w (FClose h) \<and>
                     trace w1 = trace w @ [ClosePostDone, Sys (FSync h), Sys (FClose h)]
                else e1 \<noteq> None \<and> trace w1 = trace w @ [ClosePostDone, Sys (FSync h)])"
proof (cases "fp r")
  case None
  then show ?thesis
    using assms by (simp add: Close_def emit_def Let_def)
next
  case (Some h)
  show ?thesis
  proof (cases "is_open w h \<and> fault w (FSync h) = None")
    case True
    then show ?thesis
      using assms Some
      by (simp add: Close_def fileSync_def fileClose_def emit_def is_open_def Let_def)
  next
    case False
    then show ?thesis
      using assms Some
      by (auto simp: Close_def fileSync_def emit_def is_open_def Let_def)
  qed
qed

theorem Close_twice_witness:
  "\<not> closeOnce r_demo \<and>
   Close r_demo w_demo =
     (None, r_demo\<lparr>closeOnce := True, done_w := True, postDone := True\<rparr>,
      w_demo\<lparr>trace := trace w_demo @ [ClosePostDone, Sys (FSync 3), Sys (FClose 3)], fds := []\<rparr>) \<and>
   Close (r_demo\<lparr>closeOnce := True, done_w := True, postDone := True\<rparr>)
         (w_demo\<lparr>trace := trace w_demo @ [ClosePostDone, Sys (FSync 3), Sys (FClose 3)], fds := []\<rparr>)
     = (None, r_demo\<lparr>closeOnce := True, done_w := True, postDone := True\<rparr>,
        w_demo\<lparr>trace := trace w_demo @ [ClosePostDone, Sys (FSync 3), Sys (FClose 3)], fds := []\<rparr>)"
proof -
  have a: "\<not> closeOnce r_demo"
    by (simp add: r_demo_def)
  have c: "Close r_demo w_demo =
     (None, r_demo\<lparr>closeOnce := True, done_w := True, postDone := True\<rparr>,
      w_demo\<lparr>trace := trace w_demo @ [ClosePostDone, Sys (FSync 3), Sys (FClose 3)], fds := []\<rparr>)"
    by (simp add: Close_def fileSync_def fileClose_def emit_def is_open_def Let_def
        r_demo_def w_demo_def w_init_def)
  show ?thesis
    using Close_twice [OF a, of w_demo] a c by auto
qed

text \<open>When the sync fails the first call returns the error and the second nil.\<close>

theorem Close_twice_counterexample:
  "fst (Close r_demo w_nosync) = Some (OSError ''input/output error'') \<and>
   fst (Close (fst (snd (Close r_demo w_nosync))) (snd (snd (Close r_demo w_nosync)))) = None"
  by (simp add: Close_def fileSync_def emit_def is_open_def Let_def
      r_demo_def w_nosync_def w_demo_def w_init_def)

subsection \<open>The empty file name\<close>

lemma Ext_empty: "Ext [] = []"
  by (simp add: Ext_def)

lemma Dir_empty: "Dir [] = ''.''"
  by (simp add: Dir_def)

text \<open>
  Claim C4.  Construction with the empty path is to fail with the empty-file-name error
  before anything is touched.  \<open>NewRotateWriter\<close> of rotatewriter.go has no such check: it
  stats the empty path and the directory, and fails only when the system refuses to
  create a file without a name, with the system's error.
\<close>

theorem NewRotateWriter_empty_name:
  "NewRotateWriter [] [] w_init =
     ((None, Some ErrNotExist),
      w_init\<lparr>trace := [Sys (Stat []), Sys (Stat ''.''), Sys (Create [])]\<rparr>)"
  by (simp add: NewRotateWriter_def init_def blank_def w_init_def
      Ext_empty Dir_empty osStat_def osCreate_def emit_def exists_file_def Let_def)

text \<open>The sibling constructor returns the empty-file-name error and leaves the world alone;
  the first fails in every world that has no file or directory named by the empty path,
  creating nothing.\<close>

lemma NewRotateWriter2_empty_name:
  "NewRotateWriter2 [] options w = ((None, Some ErrFileNameIsEmpty), w)"
  by (simp add: NewRotateWriter2_def)

lemma osStat_empty:
  "\<not> exists_file w [] \<Longrightarrow> [] \<notin> set (dirs w) \<Longrightarrow>
   \<exists>e. osStat [] w = (Some e, w\<lparr>trace := trace w @ [Sys (Stat [])]\<rparr>)"
  by (auto simp: osStat_def emit_def Let_def split: option.splits)

lemma osCreate_empty:
  "\<exists>e. osCreate [] w = (Inl e, w\<lparr>trace := trace w @ [Sys (Create [])]\<rparr>)"
  by (auto simp: osCreate_def emit_def Let_def split: option.splits)

lemma init_empty:
  assumes "filename r = []" and "\<not> exists_file w []" and "[] \<notin> set (dirs w)"
  shows "\<exists>e r' w'. init r w = (Some e, r', w') \<and> files w' = files w \<and> fds w' = fds w"
proof -
  obtain e where st: "osStat [] w = (Some e, w\<lparr>trace := trace w @ [Sys (Stat [])]\<rparr>)"
    using osStat_empty [OF assms(2,3)] by blast
  define w1 where "w1 = w\<lparr>trace := trace w @ [Sys (Stat [])]\<rparr>"
  obtain e2 w2 where st2: "osStat ''.'' w1 = (e2, w2)"
    by (cases "osStat ''.'' w1")
  have w2: "files w2 = files w" "fds w2 = fds w"
    using osStat_world [OF st2] by (simp_all add: w1_def)
  obtain e3 w3 where mk: "(if e2 \<noteq> None then osMkdirAll ''.'' w2 else (None, w2)) = (e3, w3)"
    by (cases "if e2 \<noteq> None then osMkdirAll ''.'' w2 else (None, w2)")
  have w3: "files w3 = files w" "fds w3 = fds w"
    using mk w2 by (auto simp: osMkdirAll_def emit_def Let_def split: if_splits option.splits)
  obtain e4 where cr: "osCreate [] w3 = (Inl e4, w3\<lparr>trace := trace w3 @ [Sys (Create [])]\<rparr>)"
    using osCreate_empty by blast
  show ?thesis
  proof (cases e3)
    case None
    then show ?thesis
      using assms(1) st st2 mk cr w3
      by (simp add: init_def Ext_empty Dir_empty Let_def w1_def [symmetric])
  next
    case (Some x)
    then show ?thesis
      using assms(1) st st2 mk w3
      by (simp add: init_def Ext_empty Dir_empty Let_def w1_def [symmetric])
  qed
qed

lemma NewRotateWriter_empty_fails:
  assumes "\<not> exists_file w []" and "[] \<notin> set (dirs w)"
  shows "\<exists>e w'. NewRotateWriter [] options w = ((None, Some e), w') \<and>
                files w' = files w \<and> fds w' = fds w"
proof -
  have "filename (blank [] (foldl (\<lambda>ro fn. applyOption fn ro) defaults options)) = []"
    by (simp add: blank_def)
  from init_empty [OF this assms] show ?thesis
    by (auto simp: NewRotateWriter_def Let_def)
qed

subsection \<open>Removing files\<close>

lemma osRemove_ok:
  "fault w (Remove f) = None \<Longrightarrow> f \<in> set (map fst (files w)) \<Longrightarrow>
   osRemove f w = (None, w\<lparr>trace := trace w @ [Sys (Remove f)], files := del_file f (files w)\<rparr>)"
  by (simp add: osRemove_def emit_def exists_file_def Let_def)

lemma osRemove_files:
  "osRemove f w = (e, w') \<Longrightarrow>
   files w' = (if e = None then del_file f (files w) else files w)"
  by (auto simp: osRemove_def emit_def Let_def split: option.splits if_splits)

lemma map_fst_del_file: "map fst (del_file f fs) = filter (\<lambda>q. q \<noteq> f) (map fst fs)"
  by (induction fs) (auto simp: del_file_def)

lemma filter_del_file:
  "filter (\<lambda>(q, d). q \<notin> S) (del_file f fs) = filter (\<lambda>(q, d). q \<notin> insert f S) fs"
  by (induction fs) (auto simp: del_file_def)



lemma oldFiles_ok:
  "fault w (Glob (backupPattern r)) = None \<Longrightarrow>
   oldFiles r w = (Inr (backups r w), w\<lparr>trace := trace w @ [Sys (Glob (backupPattern r))]\<rparr>)"
  by (cases "gzip (opt r)"; simp add: oldFiles_def osGlob_def backupPattern_def backups_def emit_def Let_def)

lemma oldFiles_fail:
  "fault w (Glob (backupPattern r)) = Some e \<Longrightarrow>
   oldFiles r w = (Inl e, w\<lparr>trace := trace w @ [Sys (Glob (backupPattern r))]\<rparr>)"
  by (cases "gzip (opt r)"; simp add: oldFiles_def osGlob_def backupPattern_def emit_def Let_def)



lemma names_without: "set (map fst (without gone w)) = set (map fst (files w)) - set gone"
  by (auto simp: without_def)



subsection \<open>The count sweep\<close>






subsection \<open>Fewer backups than the budget\<close>

lemma backups_two:
  "backups r_five w_two = [''app-2023-11-09T10:00:00.000.log'', ''app-2023-11-12T10:00:00.000.log'']"
  by code_simp

text \<open>
  Claim C1.  The writer never panics, and in particular the count sweep returns without
  deleting anything when fewer than \<open>maxBackups\<close> backups exist.  The count sweep of
  rotatewriter.go does not: its guard \<open>maxBackups <= 0 && maxBackups >= remain\<close> can
  never hold after the first test, so with five allowed and two present it slices
  \<open>oldFiles[:2-5]\<close> and panics.
\<close>

theorem deleteOverMaxFiles_panics:
  "fst (deleteOverMaxFiles r_five w_two) = Panics"
proof -
  have g: "fault w_two (Glob (backupPattern r_five)) = None"
    by (simp add: w_two_def w_demo_def w_init_def)
  have mb: "maxBackups (opt r_five) = 5"
    by (simp add: r_five_def)
  show ?thesis
    by (simp add: deleteOverMaxFiles_def oldFiles_ok [OF g] backups_two mb Let_def)
qed

text \<open>It panics exactly then; the sibling, whose guard has \<open>||\<close>, always returns and
  deletes nothing there.\<close>

lemma deleteOverMaxFiles_panics_iff:
  assumes "fault w (Glob (backupPattern r)) = None"
  shows "fst (deleteOverMaxFiles r w) = Panics \<longleftrightarrow>
           0 < maxBackups (opt r) \<and> int (length (backups r w)) < maxBackups (opt r)"
  by (auto simp: deleteOverMaxFiles_def oldFiles_ok [OF assms] Let_def split: prod.splits option.splits)

lemma removeOverMaxFiles_returns: "fst (removeOverMaxFiles r w) = Returns ()"
  by (auto simp: removeOverMaxFiles_def Let_def split: prod.splits option.splits sum.splits)

lemma removeOverMaxFiles_few:
  assumes "fault w (Glob (backupPattern r)) = None"
      and "0 < maxBackups (opt r)" and "int (length (backups r w)) \<le> maxBackups (opt r)"
  shows "removeOverMaxFiles r w = (Returns (), r, w\<lparr>trace := trace w @ [Sys (Glob (backupPattern r))]\<rparr>)"
  using assms(2,3) by (simp add: removeOverMaxFiles_def oldFiles_ok [OF assms(1)] Let_def)

subsection \<open>The age sweep\<close>

lemma removeBelow_ok:
  "\<forall>f \<in> set fs. f < b \<longrightarrow> fault w (Remove f) = None \<Longrightarrow>
   set fs \<subseteq> set (map fst (files w)) \<Longrightarrow> distinct fs \<Longrightarrow>
   removeBelow b fs w =
     (None, w\<lparr>trace := trace w @ map (\<lambda>f. Sys (Remove f)) (filter (\<lambda>f. f < b) fs),
             files := filter (\<lambda>(q, d). q \<notin> set (filter (\<lambda>f. f < b) fs)) (files w)\<rparr>)"
proof (induction fs arbitrary: w)
  case Nil
  then show ?case by simp
next
  case (Cons f fs)
  show ?case
  proof (cases "f < b")
    case False
    then have "removeBelow b (f # fs) w = removeBelow b fs w"
      by (simp add: not_less)
    moreover have "removeBelow b fs w =
       (None, w\<lparr>trace := trace w @ map (\<lambda>f. Sys (Remove f)) (filter (\<lambda>f. f < b) fs),
             files := filter (\<lambda>(q, d). q \<notin> set (filter (\<lambda>f. f < b) fs)) (files w)\<rparr>)"
      using Cons.prems by (intro Cons.IH) auto
    ultimately show ?thesis using False by simp
  next
    case True
    let ?w = "w\<lparr>trace := trace w @ [Sys (Remove f)], files := del_file f (files w)\<rparr>"
    have rm: "osRemove f w = (None, ?w)"
      using Cons.prems True by (intro osRemove_ok) auto
    have sub: "set fs \<subseteq> set (map fst (files ?w))"
      using Cons.prems by (auto simp: map_fst_del_file)
    have "removeBelow b fs ?w =
       (None, ?w\<lparr>trace := trace ?w @ map (\<lambda>f. Sys (Remove f)) (filter (\<lambda>f. f < b) fs),
             files := filter (\<lambda>(q, d). q \<notin> set (filter (\<lambda>f. f < b) fs)) (files ?w)\<rparr>)"
      using Cons.prems sub by (intro Cons.IH) auto
    moreover have "filter (\<lambda>(q, d). q \<notin> set (filter (\<lambda>f. f < b) fs)) (del_file f (files w))
        = filter (\<lambda>(q, d). q \<notin> set (filter (\<lambda>f. f < b) (f # fs))) (files w)"
      using True by (induction "files w") (auto simp: del_file_def intro: filter_cong)
    moreover have "\<not> b \<le> f"
      using True by simp
    ultimately show ?thesis using rm by simp
  qed
qed

text \<open>Whatever the system refuses, the loop removes a front part of the names below the
  boundary and nothing else.\<close>

lemma removeBelow_front:
  "\<exists>n. files (snd (removeBelow b fs w))
         = filter (\<lambda>(q, d). q \<notin> set (take n (filter (\<lambda>f. f < b) fs))) (files w)"
proof (induction fs arbitrary: w)
  case Nil
  then show ?case by simp
next
  case (Cons f fs)
  show ?case
  proof (cases "f < b")
    case False
    then have "removeBelow b (f # fs) w = removeBelow b fs w"
      by (simp add: not_less)
    then show ?thesis
      using Cons.IH [of w] False by simp
  next
    case True
    then have nb: "\<not> b \<le> f" by simp
    obtain e w' where rm: "osRemove f w = (e, w')"
      by (cases "osRemove f w")
    show ?thesis
    proof (cases e)
      case (Some x)
      then have "files (snd (removeBelow b (f # fs) w)) = files w"
        using rm nb osRemove_files [OF rm] by simp
      then have "files (snd (removeBelow b (f # fs) w))
          = filter (\<lambda>(q, d). q \<notin> set (take 0 (filter (\<lambda>f. f < b) (f # fs)))) (files w)"
        by simp
      then show ?thesis by blast
    next
      case None
      obtain n where n: "files (snd (removeBelow b fs w'))
          = filter (\<lambda>(q, d). q \<notin> set (take n (filter (\<lambda>f. f < b) fs))) (files w')"
        using Cons.IH [of w'] by blast
      have "files w' = del_file f (files w)"
        using osRemove_files [OF rm] None by simp
      then have "files (snd (removeBelow b (f # fs) w))
          = filter (\<lambda>(q, d). q \<notin> set (take (Suc n) (filter (\<lambda>f. f < b) (f # fs)))) (files w)"
        using rm None nb True n by (simp add: filter_del_file)
      then show ?thesis by blast
    qed
  qed
qed

lemma wrap64_id: "- 9223372036854775808 \<le> x \<Longrightarrow> x < 9223372036854775808 \<Longrightarrow> wrap64 x = x"
  by (simp add: wrap64_def)

lemma boundaryFile_trace [simp]: "boundaryFile r (w\<lparr>trace := t\<rparr>) = boundaryFile r w"
  by (simp add: boundaryFile_def dateline_def)

lemma delay_days:
  assumes "0 < k" and "k \<le> 106751"
  shows "wrap64 (- 3600000000000 * wrap64 (24 * k)) = - (k * 24 * 3600000000000)"
proof -
  have "wrap64 (24 * k) = 24 * k"
    using assms by (intro wrap64_id) auto
  moreover have "wrap64 (- 3600000000000 * (24 * k)) = - 3600000000000 * (24 * k)"
    using assms by (intro wrap64_id) auto
  ultimately show ?thesis by simp
qed

lemma age_sweep_run:
  assumes glob: "fault w (Glob (backupPattern r)) = None"
      and dist: "distinct (backups r w)"
      and ex: "set (backups r w) \<subseteq> set (map fst (files w))"
      and rm: "\<forall>f \<in> set (backups r w). f < boundaryFile r w \<longrightarrow> fault w (Remove f) = None"
      and kd: "0 < keepDays (opt r)"
      and gone: "gone = filter (\<lambda>f. f < boundaryFile r w) (backups r w)"
  shows "deleteOutdatedFiles r w =
           (r, w\<lparr>trace := trace w @ Sys (Glob (backupPattern r)) # map (\<lambda>f. Sys (Remove f)) gone,
                  files := without gone w\<rparr>)"
proof -
  define b where "b = boundaryFile r w"
  define t where "t = trace w @ [Sys (Glob (backupPattern r))]"
  have g: "gone = filter (\<lambda>f. f < b) (backups r w)"
    by (simp add: gone b_def)
  have "removeBelow b (backups r w) (w\<lparr>trace := t\<rparr>) =
     (None, (w\<lparr>trace := t\<rparr>)\<lparr>trace := trace (w\<lparr>trace := t\<rparr>) @ map (\<lambda>f. Sys (Remove f)) (filter (\<lambda>f. f < b) (backups r w)),
             files := filter (\<lambda>(q, d). q \<notin> set (filter (\<lambda>f. f < b) (backups r w))) (files (w\<lparr>trace := t\<rparr>))\<rparr>)"
  proof (rule removeBelow_ok)
    show "\<forall>f\<in>set (backups r w). f < b \<longrightarrow> fault (w\<lparr>trace := t\<rparr>) (Remove f) = None"
      using rm by (simp add: b_def)
    show "set (backups r w) \<subseteq> set (map fst (files (w\<lparr>trace := t\<rparr>)))"
      using ex by simp
    show "distinct (backups r w)" by (rule dist)
  qed
  then have core: "removeBelow b (backups r w) (w\<lparr>trace := t\<rparr>) =
     (None, w\<lparr>trace := t @ map (\<lambda>f. Sys (Remove f)) gone, files := without gone w\<rparr>)"
    by (simp add: without_def g)
  show ?thesis
    using kd core
    by (simp add: deleteOutdatedFiles_def oldFiles_ok [OF glob] t_def [symmetric] b_def [symmetric])
qed

lemma age_sweep_front:
  "\<exists>n. files (snd (deleteOutdatedFiles r w))
         = without (take n (filter (\<lambda>f. f < boundaryFile r w) (backups r w))) w"
proof (cases "0 < keepDays (opt r)")
  case False
  then have "files (snd (deleteOutdatedFiles r w))
      = without (take 0 (filter (\<lambda>f. f < boundaryFile r w) (backups r w))) w"
    by (simp add: deleteOutdatedFiles_def without_def)
  then show ?thesis by blast
next
  case kd: True
  show ?thesis
  proof (cases "fault w (Glob (backupPattern r))")
    case (Some e)
    have "files (snd (deleteOutdatedFiles r w))
        = without (take 0 (filter (\<lambda>f. f < boundaryFile r w) (backups r w))) w"
      using kd by (simp add: deleteOutdatedFiles_def oldFiles_fail [OF Some] without_def)
    then show ?thesis by blast
  next
    case None
    define w1 where "w1 = w\<lparr>trace := trace w @ [Sys (Glob (backupPattern r))]\<rparr>"
    define b where "b = boundaryFile r w"
    obtain n where n: "files (snd (removeBelow b (backups r w) w1))
        = filter (\<lambda>(q, d). q \<notin> set (take n (filter (\<lambda>f. f < b) (backups r w)))) (files w1)"
      using removeBelow_front [of b "backups r w" w1] by blast
    obtain e w2 where re: "removeBelow b (backups r w) w1 = (e, w2)"
      by (cases "removeBelow b (backups r w) w1")
    have bw: "boundaryFile r w1 = b"
      by (simp add: w1_def b_def)
    have "snd (deleteOutdatedFiles r w) = w2"
      using kd re
      by (cases e) (simp_all add: deleteOutdatedFiles_def oldFiles_ok [OF None] w1_def [symmetric] bw)
    then have "files (snd (deleteOutdatedFiles r w))
        = without (take n (filter (\<lambda>f. f < boundaryFile r w) (backups r w))) w"
      using n re by (simp add: without_def w1_def b_def)
    then show ?thesis by blast
  qed
qed

text \<open>
  Claim C9, as the code has it.  A non-positive \<open>keepDays\<close> makes the age sweep do nothing
  at all.  In every world, whatever the system refuses, the sweep removes only listed
  names below the boundary name (a front part of them, in the order listed): a file
  whose name is at or above the boundary is never touched.  When the listing succeeds,
  gives existing files without repetition, and the system refuses none of the removals
  asked for, the sweep removes exactly the listed names below the boundary, and the
  listed names at or above it still exist.  For \<open>keepDays\<close> from 1 to 106751 the boundary
  name is the one formed from the current time shifted back by \<open>keepDays\<close> times 24 hours.
\<close>

theorem deleteOutdatedFiles_sweep:
  "(keepDays (opt r) \<le> 0 \<longrightarrow> deleteOutdatedFiles r w = (r, w)) \<and>
   (\<exists>n. files (snd (deleteOutdatedFiles r w))
          = without (take n (filter (\<lambda>f. f < boundaryFile r w) (backups r w))) w) \<and>
   (\<forall>f d. boundaryFile r w \<le> f \<longrightarrow>
      ((f, d) \<in> set (files (snd (deleteOutdatedFiles r w)))) = ((f, d) \<in> set (files w))) \<and>
   (0 < keepDays (opt r) \<and> fault w (Glob (backupPattern r)) = None \<and>
    distinct (backups r w) \<and> set (backups r w) \<subseteq> set (map fst (files w)) \<and>
    (\<forall>f \<in> set (backups r w). f < boundaryFile r w \<longrightarrow> fault w (Remove f) = None) \<longrightarrow>
      (let gone = filter (\<lambda>f. f < boundaryFile r w) (backups r w)
       in deleteOutdatedFiles r w =
            (r, w\<lparr>trace := trace w @ Sys (Glob (backupPattern r)) # map (\<lambda>f. Sys (Remove f)) gone,
                   files := without gone w\<rparr>) \<and>
          set (filter (\<lambda>f. boundaryFile r w \<le> f) (backups r w)) \<subseteq> set (map fst (without gone w)))) \<and>
   (0 < keepDays (opt r) \<and> keepDays (opt r) \<le> 106751 \<longrightarrow>
      boundaryFile r w =
        prefix r @ delimiter (opt r) @
        dateline (timeFormat (opt r)) (localTime (opt r))
          (- (keepDays (opt r) * 24 * 3600000000000)) w @
        ext r @ (if gzip (opt r) then ''.gz'' else []))"
proof (intro conjI impI allI)
  assume "keepDays (opt r) \<le> 0"
  then show "deleteOutdatedFiles r w = (r, w)"
    by (simp add: deleteOutdatedFiles_def)
next
  show "\<exists>n. files (snd (deleteOutdatedFiles r w))
          = without (take n (filter (\<lambda>f. f < boundaryFile r w) (backups r w))) w"
    by (rule age_sweep_front)
next
  fix f d
  assume ge: "boundaryFile r w \<le> f"
  obtain n where n: "files (snd (deleteOutdatedFiles r w))
          = without (take n (filter (\<lambda>f. f < boundaryFile r w) (backups r w))) w"
    using age_sweep_front by blast
  have "f \<notin> set (take n (filter (\<lambda>f. f < boundaryFile r w) (backups r w)))"
  proof
    assume "f \<in> set (take n (filter (\<lambda>f. f < boundaryFile r w) (backups r w)))"
    then have "f \<in> set (filter (\<lambda>f. f < boundaryFile r w) (backups r w))"
      by (rule in_set_takeD)
    then have "f < boundaryFile r w" by simp
    then show False using ge leD by blast
  qed
  then show "((f, d) \<in> set (files (snd (deleteOutdatedFiles r w)))) = ((f, d) \<in> set (files w))"
    by (simp add: n without_def)
next
  assume "0 < keepDays (opt r) \<and> keepDays (opt r) \<le> 106751"
  then show "boundaryFile r w =
              prefix r @ delimiter (opt r) @
              dateline (timeFormat (opt r)) (localTime (opt r))
                (- (keepDays (opt r) * 24 * 3600000000000)) w @
              ext r @ (if gzip (opt r) then ''.gz'' else [])"
    by (simp only: boundaryFile_def Let_def delay_days)
next
  assume h: "0 < keepDays (opt r) \<and> fault w (Glob (backupPattern r)) = None \<and>
    distinct (backups r w) \<and> set (backups r w) \<subseteq> set (map fst (files w)) \<and>
    (\<forall>f \<in> set (backups r w). f < boundaryFile r w \<longrightarrow> fault w (Remove f) = None)"
  define gone where "gone = filter (\<lambda>f. f < boundaryFile r w) (backups r w)"
  have run: "deleteOutdatedFiles r w =
            (r, w\<lparr>trace := trace w @ Sys (Glob (backupPattern r)) # map (\<lambda>f. Sys (Remove f)) gone,
                   files := without gone w\<rparr>)"
    using h by (intro age_sweep_run) (simp_all add: gone_def)
  have "set (filter (\<lambda>f. boundaryFile r w \<le> f) (backups r w)) \<subseteq> set (map fst (files w)) - set gone"
    using h by (auto simp: gone_def)
  then have rest: "set (filter (\<lambda>f. boundaryFile r w \<le> f) (backups r w)) \<subseteq> set (map fst (without gone w))"
    by (simp only: names_without)
  show "let gone = filter (\<lambda>f. f < boundaryFile r w) (backups r w)
       in deleteOutdatedFiles r w =
            (r, w\<lparr>trace := trace w @ Sys (Glob (backupPattern r)) # map (\<lambda>f. Sys (Remove f)) gone,
                   files := without gone w\<rparr>) \<and>
          set (filter (\<lambda>f. boundaryFile r w \<le> f) (backups r w)) \<subseteq> set (map fst (without gone w))"
    unfolding Let_def gone_def [symmetric] using run rest by simp
qed

text \<open>Thirty days back from 2023-11-14: the backup of 2023-10-01 goes, that of 2023-11-09 stays.\<close>

lemma Format_boundary_demo:
  "Format (civilOf 3600 1697408000123456789) ''2006-01-02T15:04:05.000'' = ''2023-10-15T23:13:20.123''"
  by code_simp

lemma boundary_demo: "boundaryFile r_demo w_age = ''app-2023-10-15T23:13:20.123.log''"
  by (simp add: boundaryFile_def dateline_def r_demo_def defaults_def defaultKeepDays_def
      defaultTimeFormat_def defaultDelimiter_def w_age_def w_demo_def w_init_def wrap64_def
      Format_boundary_demo)

lemma backupPattern_demo: "backupPattern r_demo = ''app-*.log''"
  by code_simp

lemma backups_age:
  "backups r_demo w_age = [''app-2023-10-01T10:00:00.000.log'', ''app-2023-11-09T10:00:00.000.log'']"
  by code_simp

lemma names_age:
  "map fst (files w_age) = [''app.log'', ''app-2023-11-09T10:00:00.000.log'', ''app-2023-10-01T10:00:00.000.log'']"
  by (simp add: w_age_def w_demo_def w_init_def)

lemma no_fault_age: "fault w_age c = None"
  by (simp add: w_age_def w_demo_def w_init_def)

theorem deleteOutdatedFiles_sweep_witness:
  "0 < keepDays (opt r_demo) \<and> keepDays (opt r_demo) \<le> 106751 \<and>
   fault w_age (Glob (backupPattern r_demo)) = None \<and>
   distinct (backups r_demo w_age) \<and>
   list_all (\<lambda>f. f \<in> set (map fst (files w_age))) (backups r_demo w_age) \<and>
   list_all (\<lambda>f. fault w_age (Remove f) = None) (backups r_demo w_age) \<and>
   boundaryFile r_demo w_age = ''app-2023-10-15T23:13:20.123.log'' \<and>
   deleteOutdatedFiles r_demo w_age =
     (r_demo,
      w_age\<lparr>trace := trace w_age @ [Sys (Glob ''app-*.log''), Sys (Remove ''app-2023-10-01T10:00:00.000.log'')],
            files := [(''app.log'', []), (''app-2023-11-09T10:00:00.000.log'', ''b'')]\<rparr>)"
proof -
  have kd: "keepDays (opt r_demo) = 30"
    by (simp add: r_demo_def defaults_def defaultKeepDays_def)
  have d: "distinct (backups r_demo w_age)"
    by (simp add: backups_age)
  have ex: "list_all (\<lambda>f. f \<in> set (map fst (files w_age))) (backups r_demo w_age)"
    by (simp add: backups_age names_age)
  have rm: "list_all (\<lambda>f. fault w_age (Remove f) = None) (backups r_demo w_age)"
    by (simp add: no_fault_age list_all_iff)
  have ex': "set (backups r_demo w_age) \<subseteq> set (map fst (files w_age))"
    using ex by (auto simp: list_all_iff)
  have "deleteOutdatedFiles r_demo w_age =
     (r_demo,
      w_age\<lparr>trace := trace w_age @ Sys (Glob (backupPattern r_demo)) #
                map (\<lambda>f. Sys (Remove f)) (filter (\<lambda>f. f < boundaryFile r_demo w_age) (backups r_demo w_age)),
            files := without (filter (\<lambda>f. f < boundaryFile r_demo w_age) (backups r_demo w_age)) w_age\<rparr>)"
    using deleteOutdatedFiles_sweep [of r_demo w_age] d ex'
    by (simp add: kd no_fault_age Let_def)
  then have "deleteOutdatedFiles r_demo w_age =
     (r_demo,
      w_age\<lparr>trace := trace w_age @ [Sys (Glob ''app-*.log''), Sys (Remove ''app-2023-10-01T10:00:00.000.log'')],
            files := [(''app.log'', []), (''app-2023-11-09T10:00:00.000.log'', ''b'')]\<rparr>)"
    by (simp add: backups_age boundary_demo backupPattern_demo without_def)
       (simp add: w_age_def w_demo_def w_init_def)
  then show ?thesis
    using d ex rm boundary_demo by (simp add: kd no_fault_age)
qed

text \<open>
  With \<open>WithKeepDays(106752)\<close> the boundary the claim names is in 1731, the one the code
  uses in 2316, and a backup five days old is removed.
\<close>

lemma Format_claimed_old:
  "Format (civilOf 3600 (- 7523372799876543211)) ''2006-01-02T15:04:05.000'' = ''1731-08-05T23:13:20.123''"
  by code_simp

lemma Format_actual_old:
  "Format (civilOf 3600 10923371273833008405) ''2006-01-02T15:04:05.000'' = ''2316-02-24T22:47:53.833''"
  by code_simp

lemma claimed_boundary_old:
  "prefix r_old @ delimiter (opt r_old) @
   dateline (timeFormat (opt r_old)) (localTime (opt r_old)) (- (keepDays (opt r_old) * 24 * 3600000000000)) w_age @
   ext r_old @ (if gzip (opt r_old) then ''.gz'' else []) = ''app-1731-08-05T23:13:20.123.log''"
  by (simp add: dateline_def r_old_def r_demo_def defaults_def
      defaultTimeFormat_def defaultDelimiter_def w_age_def w_demo_def w_init_def Format_claimed_old)

lemma actual_boundary_old: "boundaryFile r_old w_age = ''app-2316-02-24T22:47:53.833.log''"
  by (simp add: boundaryFile_def dateline_def r_old_def r_demo_def defaults_def
      defaultTimeFormat_def defaultDelimiter_def w_age_def w_demo_def w_init_def wrap64_def
      Format_actual_old)

lemma backups_old:
  "backups r_old w_age = [''app-2023-10-01T10:00:00.000.log'', ''app-2023-11-09T10:00:00.000.log'']"
  by code_simp

theorem deleteOutdatedFiles_overflow_counterexample:
  "0 < keepDays (opt r_old) \<and>
   ''app-2023-11-09T10:00:00.000.log'' \<in> set (backups r_old w_age) \<and>
   ''app-2023-11-09T10:00:00.000.log'' \<in> set (map fst (files w_age)) \<and>
   prefix r_old @ delimiter (opt r_old) @
     dateline (timeFormat (opt r_old)) (localTime (opt r_old)) (- (keepDays (opt r_old) * 24 * 3600000000000)) w_age @
     ext r_old @ (if gzip (opt r_old) then ''.gz'' else [])
     \<le> ''app-2023-11-09T10:00:00.000.log'' \<and>
   ''app-2023-11-09T10:00:00.000.log'' \<notin> set (map fst (files (snd (deleteOutdatedFiles r_old w_age))))"
proof -
  have g: "fault w_age (Glob (backupPattern r_old)) = None"
    by (rule no_fault_age)
  have d: "distinct (backups r_old w_age)"
    by (simp add: backups_old)
  have ex: "set (backups r_old w_age) \<subseteq> set (map fst (files w_age))"
    by (simp add: backups_old names_age)
  have rm: "\<forall>f \<in> set (backups r_old w_age). f < boundaryFile r_old w_age \<longrightarrow> fault w_age (Remove f) = None"
    by (simp add: no_fault_age)
  have kd: "0 < keepDays (opt r_old)"
    by (simp add: r_old_def)
  have gone: "[''app-2023-10-01T10:00:00.000.log'', ''app-2023-11-09T10:00:00.000.log'']
                = filter (\<lambda>f. f < boundaryFile r_old w_age) (backups r_old w_age)"
    by (simp add: backups_old actual_boundary_old)
  note run = age_sweep_run [OF g d ex rm kd gone]
  have "map fst (files (snd (deleteOutdatedFiles r_old w_age))) = [''app.log'']"
    by (simp add: run without_def) (simp add: w_age_def w_demo_def w_init_def)
  then have out: "''app-2023-11-09T10:00:00.000.log'' \<notin> set (map fst (files (snd (deleteOutdatedFiles r_old w_age))))"
    by simp
  have mem: "''app-2023-11-09T10:00:00.000.log'' \<in> set (backups r_old w_age)"
    by (simp add: backups_old)
  have mem': "''app-2023-11-09T10:00:00.000.log'' \<in> set (map fst (files w_age))"
    by (simp add: names_age)
  have le: "prefix r_old @ delimiter (opt r_old) @
     dateline (timeFormat (opt r_old)) (localTime (opt r_old)) (- (keepDays (opt r_old) * 24 * 3600000000000)) w_age @
     ext r_old @ (if gzip (opt r_old) then ''.gz'' else [])
     \<le> ''app-2023-11-09T10:00:00.000.log''"
    unfolding claimed_boundary_old by simp
  show ?thesis
    using kd mem mem' le out by (intro conjI)
qed

subsection \<open>The order of backup names\<close>

lemma app_less:
  fixes a1 a2 b1 b2 :: "'a::linorder list"
  shows "length a1 = length a2 \<Longrightarrow> (a1 @ b1 < a2 @ b2) = (a1 < a2 \<or> a1 = a2 \<and> b1 < b2)"
  by (induction a1 a2 rule: list_induct2) auto

declare dec.simps [simp del] yearFwd.simps [simp del]

lemma digit_cases: "0 \<le> n \<Longrightarrow> n < 10 \<Longrightarrow> n \<in> {0, 1, 2, 3, 4, 5, 6, 7, 8, 9 :: int}"
  by simp arith

lemma digit_vals:
  "digit 0 = CHR ''0''" "digit 1 = CHR ''1''" "digit 2 = CHR ''2''" "digit 3 = CHR ''3''"
  "digit 4 = CHR ''4''" "digit 5 = CHR ''5''" "digit 6 = CHR ''6''" "digit 7 = CHR ''7''"
  "digit 8 = CHR ''8''" "digit 9 = CHR ''9''"
  by code_simp+

lemma div10_bound: "(n::int) < 10 * x \<Longrightarrow> n div 10 < x"
  by linarith

lemma divmod_less_split:
  fixes a b k :: int
  assumes "0 < k" and "a < b"
  shows "a div k < b div k \<or> (a div k = b div k \<and> a mod k < b mod k)"
proof (cases "a div k = b div k")
  case True
  have A: "a mod k = a - k * (a div k)" and B: "b mod k = b - k * (b div k)"
    by (simp_all add: minus_mult_div_eq_mod)
  show ?thesis
    unfolding A B using assms(2) True by simp
next
  case False
  moreover have "a div k \<le> b div k"
    using assms by (simp add: zdiv_mono1)
  ultimately show ?thesis by simp
qed

lemma digit_less: "0 \<le> a \<Longrightarrow> a < b \<Longrightarrow> b < 10 \<Longrightarrow> digit a < digit b"
proof -
  assume "0 \<le> a" "a < b" "b < 10"
  then have "a \<in> {0, 1, 2, 3, 4, 5, 6, 7, 8, 9 :: int}" "b \<in> {0, 1, 2, 3, 4, 5, 6, 7, 8, 9 :: int}"
    by (simp_all only: digit_cases)
  with \<open>a < b\<close> show ?thesis
    by (auto simp: digit_vals)
qed

lemma dec_small: "0 \<le> n \<Longrightarrow> n < 10 \<Longrightarrow> dec n = [digit n]"
  by (simp add: dec.simps)

lemma dec_step: "10 \<le> n \<Longrightarrow> dec n = dec (n div 10) @ [digit (n mod 10)]"
  by (subst dec.simps) simp

lemma dec_nonempty: "dec n \<noteq> []"
  by (subst dec.simps) simp

lemma appendInt_step:
  assumes "0 \<le> n" and "1 \<le> w"
  shows "appendInt n (Suc w) = appendInt (n div 10) w @ [digit (n mod 10)]"
proof (cases "n < 10")
  case True
  then have "n div 10 = 0" "n mod 10 = n"
    using assms by simp_all
  moreover have "replicate w (CHR ''0'') = replicate (w - 1) (CHR ''0'') @ [digit 0]"
    using assms(2) by (cases w) (simp_all add: digit_vals replicate_append_same)
  ultimately show ?thesis
    using assms True by (simp add: appendInt_def dec_small)
next
  case False
  then have n: "10 \<le> n" by simp
  have "0 < length (dec (n div 10))"
    using dec_nonempty by simp
  then show ?thesis
    using assms n by (simp add: appendInt_def dec_step Suc_diff_le Let_def) 
qed

lemma appendInt_one: "0 \<le> n \<Longrightarrow> n < 10 \<Longrightarrow> appendInt n (Suc 0) = [digit n]"
  by (simp add: appendInt_def dec_small)

lemma appendInt_length:
  "1 \<le> w \<Longrightarrow> 0 \<le> n \<Longrightarrow> n < 10 ^ w \<Longrightarrow> length (appendInt n w) = w"
proof (induction w arbitrary: n rule: nat_induct_at_least)
  case base
  then show ?case by (simp add: appendInt_one)
next
  case (Suc w)
  have "n div 10 < 10 ^ w"
    using Suc.prems by (simp add: div10_bound)
  moreover have "0 \<le> n div 10"
    using Suc.prems by simp
  ultimately have "length (appendInt (n div 10) w) = w"
    by (intro Suc.IH)
  then show ?case
    using Suc by (simp add: appendInt_step)
qed

lemma appendInt_less:
  "1 \<le> w \<Longrightarrow> 0 \<le> a \<Longrightarrow> a < b \<Longrightarrow> b < 10 ^ w \<Longrightarrow> appendInt a w < appendInt b w"
proof (induction w arbitrary: a b rule: nat_induct_at_least)
  case base
  then show ?case by (simp add: appendInt_one digit_less)
next
  case (Suc w)
  have bb: "b div 10 < 10 ^ w" "a div 10 < 10 ^ w" "0 \<le> a div 10" "0 \<le> b" "0 \<le> b div 10"
    using Suc.prems by (simp_all add: div10_bound)
  have len: "length (appendInt (a div 10) w) = length (appendInt (b div 10) w)"
    using Suc.hyps bb by (simp add: appendInt_length)
  have split: "a div 10 < b div 10 \<or> (a div 10 = b div 10 \<and> a mod 10 < b mod 10)"
    using Suc.prems by (intro divmod_less_split) simp_all
  then show ?case
  proof
    assume "a div 10 < b div 10"
    then have "appendInt (a div 10) w < appendInt (b div 10) w"
      using Suc.IH bb by simp
    then show ?thesis
      using Suc.prems Suc.hyps bb len by (simp add: appendInt_step app_less)
  next
    assume e: "a div 10 = b div 10 \<and> a mod 10 < b mod 10"
    then have "digit (a mod 10) < digit (b mod 10)"
      by (intro digit_less) simp_all
    then show ?thesis
      using Suc.prems Suc.hyps bb e by (simp add: appendInt_step app_less)
  qed
qed

lemma appendInt_take:
  "1 \<le> w \<Longrightarrow> 0 \<le> n \<Longrightarrow> n < 10 ^ (w + k) \<Longrightarrow>
   take w (appendInt n (w + k)) = appendInt (n div 10 ^ k) w"
proof (induction k arbitrary: n)
  case 0
  then show ?case by (simp add: appendInt_length)
next
  case (Suc k)
  have b: "0 \<le> n div 10" "n div 10 < 10 ^ (w + k)"
    using Suc.prems by (simp_all add: div10_bound)
  have len: "length (appendInt (n div 10) (w + k)) = w + k"
    using Suc.prems b by (intro appendInt_length) simp_all
  have "appendInt n (Suc (w + k)) = appendInt (n div 10) (w + k) @ [digit (n mod 10)]"
    using Suc.prems by (intro appendInt_step) simp_all
  then have "take w (appendInt n (w + Suc k)) = take w (appendInt (n div 10) (w + k))"
    using len by simp
  also have "\<dots> = appendInt (n div 10 div 10 ^ k) w"
    using Suc.prems b by (intro Suc.IH) simp_all
  also have "n div 10 div 10 ^ k = n div 10 ^ Suc k"
    by (simp add: zdiv_zmult2_eq)
  finally show ?case .
qed

lemma yearFwd_fst_ge: "y \<le> fst (yearFwd y d)"
proof (induction y d rule: yearFwd.induct)
  case (1 y d)
  show ?case
  proof (cases "d < daysInYear y")
    case True
    then show ?thesis by (subst yearFwd.simps) simp
  next
    case False
    then have "y + 1 \<le> fst (yearFwd (y + 1) (d - daysInYear y))"
      using "1.IH" by simp
    then show ?thesis
      using False by (subst yearFwd.simps) simp
  qed
qed

lemma yearFwd_snd:
  "0 \<le> d \<Longrightarrow> 0 \<le> snd (yearFwd y d) \<and> snd (yearFwd y d) < daysInYear (fst (yearFwd y d))"
proof (induction y d rule: yearFwd.induct)
  case (1 y d)
  show ?case
  proof (cases "d < daysInYear y")
    case True
    then show ?thesis using "1.prems" by (subst (1 2 3) yearFwd.simps) simp
  next
    case False
    then have "0 \<le> d - daysInYear y" by simp
    with False "1.IH" show ?thesis
      by (subst (1 2 3) yearFwd.simps) simp
  qed
qed

lemma yearFwd_less:
  "d1 < d2 \<Longrightarrow>
   fst (yearFwd y d1) < fst (yearFwd y d2) \<or>
   (fst (yearFwd y d1) = fst (yearFwd y d2) \<and> snd (yearFwd y d1) < snd (yearFwd y d2))"
proof (induction y d1 arbitrary: d2 rule: yearFwd.induct)
  case (1 y d1)
  show ?case
  proof (cases "d1 < daysInYear y")
    case True
    then have a: "yearFwd y d1 = (y, d1)"
      by (subst yearFwd.simps) simp
    show ?thesis
    proof (cases "d2 < daysInYear y")
      case True
      then have "yearFwd y d2 = (y, d2)"
        by (subst yearFwd.simps) simp
      then show ?thesis using a "1.prems" by simp
    next
      case False
      then have "yearFwd y d2 = yearFwd (y + 1) (d2 - daysInYear y)"
        by (subst yearFwd.simps) simp
      then have "y + 1 \<le> fst (yearFwd y d2)"
        using yearFwd_fst_ge [of "y + 1" "d2 - daysInYear y"] by simp
      then show ?thesis using a by simp
    qed
  next
    case False
    then have a: "yearFwd y d1 = yearFwd (y + 1) (d1 - daysInYear y)"
      by (subst yearFwd.simps) simp
    have "\<not> d2 < daysInYear y"
      using False "1.prems" by simp
    then have b: "yearFwd y d2 = yearFwd (y + 1) (d2 - daysInYear y)"
      by (subst yearFwd.simps) simp
    have "d1 - daysInYear y < d2 - daysInYear y"
      using "1.prems" by simp
    from "1.IH" [OF False this] show ?thesis
      by (simp add: a b)
  qed
qed

lemma yearFwd_upto: "d < daysUpto y n \<Longrightarrow> 0 \<le> d \<Longrightarrow> fst (yearFwd y d) < y + int n"
proof (induction n arbitrary: y d)
  case 0
  then show ?case by simp
next
  case (Suc n)
  show ?case
  proof (cases "d < daysInYear y")
    case True
    then show ?thesis by (subst yearFwd.simps) simp
  next
    case False
    then have "d - daysInYear y < daysUpto (y + 1) n" "0 \<le> d - daysInYear y"
      using Suc.prems by simp_all
    then have "fst (yearFwd (y + 1) (d - daysInYear y)) < y + 1 + int n"
      by (rule Suc.IH)
    then show ?thesis
      using False by (subst yearFwd.simps) simp
  qed
qed

lemma isLeap_cycle: "isLeap (400 * q + y) = isLeap y"
proof -
  have "(400 * q + y) mod 4 = (4 * (100 * q) + y) mod 4"
    by simp
  then have a: "(400 * q + y) mod 4 = y mod 4"
    by (simp only: mod_mult_self4)
  have "(400 * q + y) mod 100 = (100 * (4 * q) + y) mod 100"
    by simp
  then have b: "(400 * q + y) mod 100 = y mod 100"
    by (simp only: mod_mult_self4)
  have c: "(400 * q + y) mod 400 = y mod 400"
    by (simp only: mod_mult_self4)
  show ?thesis
    by (simp only: isLeap_def a b c)
qed

lemma daysUpto_cycle: "daysUpto (400 * q + y) n = daysUpto y n"
proof (induction n arbitrary: y)
  case 0
  then show ?case by simp
next
  case (Suc n)
  have "daysUpto (400 * q + (y + 1)) n = daysUpto (y + 1) n"
    by (rule Suc.IH)
  then show ?case
    by (simp add: daysInYear_def isLeap_cycle add.assoc)
qed

lemma daysUpto_400: "daysUpto 0 400 = 146097"
  by code_simp

lemma yearOfDays_fst:
  "400 * (d div 146097) \<le> fst (yearOfDays d) \<and> fst (yearOfDays d) < 400 * (d div 146097) + 400"
proof -
  have r: "0 \<le> d mod 146097" "d mod 146097 < 146097"
    by simp_all
  have "daysUpto (400 * (d div 146097)) 400 = 146097"
    using daysUpto_cycle [of "d div 146097" 0 400] daysUpto_400 by simp
  then have "fst (yearFwd (400 * (d div 146097)) (d mod 146097)) < 400 * (d div 146097) + int 400"
    using r by (intro yearFwd_upto) simp_all
  then show ?thesis
    using yearFwd_fst_ge [of "400 * (d div 146097)" "d mod 146097"]
    by (simp add: yearOfDays_def)
qed

lemma yearOfDays_less:
  assumes "d1 < d2"
  shows "fst (yearOfDays d1) < fst (yearOfDays d2) \<or>
         (fst (yearOfDays d1) = fst (yearOfDays d2) \<and> snd (yearOfDays d1) < snd (yearOfDays d2))"
proof -
  have "d1 div 146097 < d2 div 146097 \<or>
        (d1 div 146097 = d2 div 146097 \<and> d1 mod 146097 < d2 mod 146097)"
    using assms by (intro divmod_less_split) simp_all
  then show ?thesis
  proof
    assume "d1 div 146097 < d2 div 146097"
    then have "400 * (d1 div 146097) + 400 \<le> 400 * (d2 div 146097)"
      by simp
    then show ?thesis
      using yearOfDays_fst [of d1] yearOfDays_fst [of d2] by linarith
  next
    assume "d1 div 146097 = d2 div 146097 \<and> d1 mod 146097 < d2 mod 146097"
    then show ?thesis
      using yearFwd_less [of "d1 mod 146097" "d2 mod 146097" "400 * (d2 div 146097)"]
      by (simp add: yearOfDays_def)
  qed
qed

lemma yearOfDays_snd:
  "0 \<le> snd (yearOfDays d) \<and> snd (yearOfDays d) < daysInYear (fst (yearOfDays d))"
  using yearFwd_snd [of "d mod 146097" "400 * (d div 146097)"]
  by (simp add: yearOfDays_def)

lemma yearOfDays_range:
  assumes "0 \<le> d" and "d < 3652425"
  shows "0 \<le> fst (yearOfDays d) \<and> fst (yearOfDays d) \<le> 9999"
proof -
  have "0 \<le> d div 146097" "d div 146097 \<le> 24"
    using assms by simp_all
  then show ?thesis
    using yearOfDays_fst [of d] by linarith
qed

lemma monthSplit_fst_ge: "m \<le> fst (monthSplit ls m d)"
proof (induction ls arbitrary: m d)
  case Nil
  then show ?case by simp
next
  case (Cons l ls)
  show ?case
    using Cons.IH [of "m + 1" "d - l"] by simp
qed

lemma monthSplit_less:
  "d1 < d2 \<Longrightarrow>
   fst (monthSplit ls m d1) < fst (monthSplit ls m d2) \<or>
   (fst (monthSplit ls m d1) = fst (monthSplit ls m d2) \<and>
    snd (monthSplit ls m d1) < snd (monthSplit ls m d2))"
proof (induction ls arbitrary: m d1 d2)
  case Nil
  then show ?case by simp
next
  case (Cons l ls)
  show ?case
  proof (cases "d1 < l")
    case True
    then show ?thesis
      using Cons.prems monthSplit_fst_ge [of "m + 1" ls "d2 - l"] by auto
  next
    case False
    then have "d1 - l < d2 - l" "\<not> d2 < l"
      using Cons.prems by simp_all
    then show ?thesis
      using False Cons.IH [of "d1 - l" "d2 - l" "m + 1"] by simp
  qed
qed

lemma monthSplit_range:
  "0 \<le> d \<Longrightarrow> d < sum_list ls \<Longrightarrow> \<forall>l \<in> set ls. l \<le> 31 \<Longrightarrow>
   m \<le> fst (monthSplit ls m d) \<and> fst (monthSplit ls m d) < m + int (length ls) \<and>
   0 \<le> snd (monthSplit ls m d) \<and> snd (monthSplit ls m d) < 31"
proof (induction ls arbitrary: m d)
  case Nil
  then show ?case by simp
next
  case (Cons l ls)
  show ?case
  proof (cases "d < l")
    case True
    then show ?thesis using Cons.prems by auto
  next
    case False
    then have "0 \<le> d - l" "d - l < sum_list ls" "\<forall>l \<in> set ls. l \<le> 31"
      using Cons.prems by simp_all
    from Cons.IH [OF this, of "m + 1"] show ?thesis
      using False by simp
  qed
qed

lemma sum_monthLengths: "sum_list (monthLengths y) = daysInYear y"
  by (simp add: monthLengths_def daysInYear_def)

lemma wallFields_eq:
  "wallFields off t =
     dateFields ((t div 1000000000 + off) div 86400 + 719528) @
     clockFields ((t div 1000000000 + off) mod 86400) @ [t mod 1000000000 div 1000000]"
  by (simp add: wallFields_def civilOf_def dateFields_def clockFields_def Let_def split: prod.splits)

lemma dateFields_length [simp]: "length (dateFields d) = 3"
  by (simp add: dateFields_def Let_def split: prod.splits)

lemma clockFields_length [simp]: "length (clockFields s) = 3"
  by (simp add: clockFields_def)

lemma dateFields_less:
  assumes "d1 < d2"
  shows "dateFields d1 < dateFields d2"
proof -
  obtain y1 yd1 where y1: "yearOfDays d1 = (y1, yd1)" by (cases "yearOfDays d1")
  obtain y2 yd2 where y2: "yearOfDays d2 = (y2, yd2)" by (cases "yearOfDays d2")
  obtain m1 md1 where m1: "monthSplit (monthLengths y1) 1 yd1 = (m1, md1)"
    by (cases "monthSplit (monthLengths y1) 1 yd1")
  obtain m2 md2 where m2: "monthSplit (monthLengths y2) 1 yd2 = (m2, md2)"
    by (cases "monthSplit (monthLengths y2) 1 yd2")
  have f: "dateFields d1 = [y1, m1, md1 + 1]" "dateFields d2 = [y2, m2, md2 + 1]"
    by (simp_all add: dateFields_def y1 y2 m1 m2)
  have "y1 < y2 \<or> (y1 = y2 \<and> yd1 < yd2)"
    using yearOfDays_less [OF assms] by (simp add: y1 y2)
  then show ?thesis
  proof
    assume "y1 < y2"
    then show ?thesis by (simp add: f)
  next
    assume e: "y1 = y2 \<and> yd1 < yd2"
    then have "m1 < m2 \<or> (m1 = m2 \<and> md1 < md2)"
      using monthSplit_less [of yd1 yd2 "monthLengths y2" 1] m1 m2 by simp
    then show ?thesis using e by (auto simp: f)
  qed
qed

lemma clockFields_less:
  assumes "s1 < s2"
  shows "clockFields s1 < clockFields s2"
proof -
  have "s1 div 3600 < s2 div 3600 \<or> (s1 div 3600 = s2 div 3600 \<and> s1 mod 3600 < s2 mod 3600)"
    using assms by (intro divmod_less_split) simp_all
  then show ?thesis
  proof
    assume "s1 div 3600 < s2 div 3600"
    then show ?thesis by (simp add: clockFields_def)
  next
    assume e: "s1 div 3600 = s2 div 3600 \<and> s1 mod 3600 < s2 mod 3600"
    then have "s1 mod 3600 div 60 < s2 mod 3600 div 60 \<or>
        (s1 mod 3600 div 60 = s2 mod 3600 div 60 \<and> s1 mod 3600 mod 60 < s2 mod 3600 mod 60)"
      by (intro divmod_less_split) simp_all
    moreover have "s1 mod 3600 mod 60 = s1 mod 60" "s2 mod 3600 mod 60 = s2 mod 60"
      by (simp_all add: mod_mod_cancel)
    ultimately show ?thesis
      using e by (auto simp: clockFields_def)
  qed
qed

lemma milli_split:
  fixes t :: int
  shows "t div 1000000000 = t div 1000000 div 1000"
    and "t mod 1000000000 div 1000000 = t div 1000000 mod 1000"
proof -
  have "t div (1000000 * 1000) = t div 1000000 div 1000"
    by (rule zdiv_zmult2_eq) simp
  then show "t div 1000000000 = t div 1000000 div 1000"
    by simp
  have "t mod (1000000 * 1000) = 1000000 * (t div 1000000 mod 1000) + t mod 1000000"
    by (rule zmod_zmult2_eq) simp
  moreover have "(1000000 * (t div 1000000 mod 1000) + t mod 1000000) div 1000000 = t div 1000000 mod 1000"
    by simp
  ultimately show "t mod 1000000000 div 1000000 = t div 1000000 mod 1000"
    by simp
qed

lemma wallFields_same:
  "t1 div 1000000 = t2 div 1000000 \<Longrightarrow> wallFields off t1 = wallFields off t2"
  by (simp add: wallFields_eq milli_split)

lemma wallFields_less:
  assumes "t1 div 1000000 < t2 div 1000000"
  shows "wallFields off t1 < wallFields off t2"
proof -
  define u1 where "u1 = t1 div 1000000"
  define u2 where "u2 = t2 div 1000000"
  define S1 where "S1 = u1 div 1000 + off"
  define S2 where "S2 = u2 div 1000 + off"
  have w1: "wallFields off t1 = dateFields (S1 div 86400 + 719528) @ clockFields (S1 mod 86400) @ [u1 mod 1000]"
    by (simp add: wallFields_eq milli_split S1_def u1_def)
  have w2: "wallFields off t2 = dateFields (S2 div 86400 + 719528) @ clockFields (S2 mod 86400) @ [u2 mod 1000]"
    by (simp add: wallFields_eq milli_split S2_def u2_def)
  have "u1 div 1000 < u2 div 1000 \<or> (u1 div 1000 = u2 div 1000 \<and> u1 mod 1000 < u2 mod 1000)"
    using assms by (intro divmod_less_split) (simp_all add: u1_def u2_def)
  then have "S1 < S2 \<or> (S1 = S2 \<and> u1 mod 1000 < u2 mod 1000)"
    by (simp add: S1_def S2_def)
  then show ?thesis
  proof
    assume "S1 < S2"
    then have "S1 div 86400 < S2 div 86400 \<or> (S1 div 86400 = S2 div 86400 \<and> S1 mod 86400 < S2 mod 86400)"
      by (intro divmod_less_split) simp_all
    then show ?thesis
    proof
      assume "S1 div 86400 < S2 div 86400"
      then have "dateFields (S1 div 86400 + 719528) < dateFields (S2 div 86400 + 719528)"
        by (intro dateFields_less) simp
      then show ?thesis
        by (simp add: w1 w2 app_less)
    next
      assume e: "S1 div 86400 = S2 div 86400 \<and> S1 mod 86400 < S2 mod 86400"
      then have "clockFields (S1 mod 86400) < clockFields (S2 mod 86400)"
        by (intro clockFields_less) simp
      then show ?thesis
        using e by (simp add: w1 w2 app_less)
    qed
  next
    assume "S1 = S2 \<and> u1 mod 1000 < u2 mod 1000"
    then show ?thesis
      by (simp add: w1 w2 app_less)
  qed
qed

lemma render_less:
  "fits ws fs \<Longrightarrow> fits ws gs \<Longrightarrow> fs < gs \<Longrightarrow> render ws fs < render ws gs"
proof (induction ws arbitrary: fs gs)
  case Nil
  then show ?case by (simp add: fits_def)
next
  case (Cons p ws)
  obtain w sep where p: "p = (w, sep)" by (cases p)
  obtain f fs' where fs: "fs = f # fs'" and f: "1 \<le> w" "0 \<le> f" "f < 10 ^ w" and fs': "fits ws fs'"
    using Cons.prems(1) by (auto simp: fits_def p list_all2_Cons1)
  obtain g gs' where gs: "gs = g # gs'" and g: "0 \<le> g" "g < 10 ^ w" and gs': "fits ws gs'"
    using Cons.prems(2) by (auto simp: fits_def p list_all2_Cons1)
  have len: "length (appendInt f w) = length (appendInt g w)"
    using f g by (simp add: appendInt_length)
  have "f < g \<or> (f = g \<and> fs' < gs')"
    using Cons.prems(3) by (simp add: fs gs)
  then show ?case
  proof
    assume "f < g"
    then have "appendInt f w < appendInt g w"
      using f g by (intro appendInt_less) simp_all
    then show ?thesis
      using len by (simp add: fs gs p app_less)
  next
    assume e: "f = g \<and> fs' < gs'"
    then have "render ws fs' < render ws gs'"
      using Cons.IH [OF fs' gs'] by simp
    then show ?thesis
      using e by (simp add: fs gs p app_less)
  qed
qed

lemma render_length:
  "fits ws fs \<Longrightarrow> fits ws gs \<Longrightarrow> length (render ws fs) = length (render ws gs)"
proof (induction ws arbitrary: fs gs)
  case Nil
  then show ?case by (simp add: fits_def)
next
  case (Cons p ws)
  obtain w sep where p: "p = (w, sep)" by (cases p)
  obtain f fs' where fs: "fs = f # fs'" and f: "1 \<le> w" "0 \<le> f" "f < 10 ^ w" and fs': "fits ws fs'"
    using Cons.prems(1) by (auto simp: fits_def p list_all2_Cons1)
  obtain g gs' where gs: "gs = g # gs'" and g: "0 \<le> g" "g < 10 ^ w" and gs': "fits ws gs'"
    using Cons.prems(2) by (auto simp: fits_def p list_all2_Cons1)
  show ?case
    using Cons.IH [OF fs' gs'] f g by (simp add: fs gs p appendInt_length)
qed

lemma dateFields_fits:
  assumes "0 \<le> d" and "d < 3652425"
  shows "fits [(4, s1), (2, s2), (2, s3)] (dateFields d)"
proof -
  obtain y yd where y: "yearOfDays d = (y, yd)" by (cases "yearOfDays d")
  obtain m md where m: "monthSplit (monthLengths y) 1 yd = (m, md)"
    by (cases "monthSplit (monthLengths y) 1 yd")
  have yr: "0 \<le> y" "y \<le> 9999"
    using yearOfDays_range [OF assms] by (simp_all add: y)
  have "0 \<le> yd" "yd < sum_list (monthLengths y)"
    using yearOfDays_snd [of d] by (simp_all add: y sum_monthLengths)
  moreover have "\<forall>l \<in> set (monthLengths y). l \<le> 31"
    by (simp add: monthLengths_def)
  ultimately have "1 \<le> m \<and> m < 1 + int (length (monthLengths y)) \<and> 0 \<le> md \<and> md < 31"
    using monthSplit_range [of yd "monthLengths y" 1] by (simp add: m)
  then have "1 \<le> m" "m < 13" "0 \<le> md" "md < 31"
    by (simp_all add: monthLengths_def)
  then show ?thesis
    using yr by (simp add: fits_def dateFields_def y m)
qed

lemma clockFields_fits:
  assumes "0 \<le> s" and "s < 86400"
  shows "fits [(2, s1), (2, s2), (2, s3)] (clockFields s)"
proof -
  have "s div 3600 < 24"
    using assms by simp
  moreover have "0 \<le> s div 3600"
    using assms by simp
  moreover have "s mod 3600 div 60 < 60" "0 \<le> s mod 3600 div 60" "0 \<le> s mod 60" "s mod 60 < 60"
    by simp_all
  ultimately show ?thesis
    by (simp add: fits_def clockFields_def)
qed

lemma wallFields_fits:
  assumes "0 \<le> (t div 1000000000 + off) div 86400 + 719528"
      and "(t div 1000000000 + off) div 86400 + 719528 < 3652425"
  shows "fits stampShape (wallFields off t)"
proof -
  have d: "fits [(4, ''-''), (2, ''-''), (2, ''T'')] (dateFields ((t div 1000000000 + off) div 86400 + 719528))"
    using assms by (rule dateFields_fits)
  have c: "fits [(2, '':''), (2, '':''), (2, ''.'')] (clockFields ((t div 1000000000 + off) mod 86400))"
    by (rule clockFields_fits) simp_all
  have m: "fits [(3, [])] [t mod 1000000000 div 1000000]"
    by (simp add: fits_def milli_split)
  have "fits ([(4, ''-''), (2, ''-''), (2, ''T'')] @ [(2, '':''), (2, '':''), (2, ''.'')] @ [(3, [])])
          (dateFields ((t div 1000000000 + off) div 86400 + 719528) @
           clockFields ((t div 1000000000 + off) mod 86400) @ [t mod 1000000000 div 1000000])"
    unfolding fits_def using d c m
    by (intro list_all2_appendI) (simp_all only: fits_def)
  then show ?thesis
    by (simp add: wallFields_eq stampShape_def)
qed

lemma layout_default:
  "layoutChunks defaultTimeFormat =
     [StdLongYear, Lit CHR ''-'', StdZeroMonth, Lit CHR ''-'', StdZeroDay, Lit CHR ''T'',
      StdHour, Lit CHR '':'', StdZeroMinute, Lit CHR '':'', StdZeroSecond,
      StdFracSecond0 CHR ''.'' 3]"
  by code_simp

lemma Format_default:
  "Format (civilOf off t) defaultTimeFormat = render stampShape (wallFields off t)"
proof -
  have "take 3 (appendInt (t mod 1000000000) (3 + 6)) = appendInt (t mod 1000000000 div 10 ^ 6) 3"
    by (rule appendInt_take) simp_all
  then have "take 3 (appendInt (t mod 1000000000) 9) = appendInt (t mod 1000000000 div 1000000) 3"
    by simp
  then show ?thesis
    by (simp add: Format_def layout_default stampShape_def wallFields_def appendNano_def Let_def
        civilOf_def split: prod.splits)
qed


lemma nowDate_wall:
  "nowDate layout (localTime (opt r)) w = Format (civilOf (wallOffset r w) (clock w)) layout"
  by (simp add: nowDate_def wallOffset_def)

text \<open>
  Claim C3, as the code has it.  With the default layout \<open>2006-01-02T15:04:05.000\<close>, for
  two instants read under the same offset of the wall clock from UTC (the UTC policy, or
  the local policy with no change of offset between them) whose wall-clock years lie in
  0 to 9999, the earlier instant never gives the later name: \<open>t1 <= t2\<close> gives
  \<open>name1 <= name2\<close>, and the names are strictly ordered when the instants lie in different
  milliseconds.
\<close>

theorem backupFileName_order:
  assumes fmt: "timeFormat (opt r) = defaultTimeFormat"
      and off: "wallOffset r w1 = wallOffset r w2"
      and le: "clock w1 \<le> clock w2"
      and lo: "- 62167219200 \<le> clock w1 div 1000000000 + wallOffset r w1"
      and hi: "clock w2 div 1000000000 + wallOffset r w2 < 253402300800"
  shows "backupFileName r w1 \<le> backupFileName r w2 \<and>
         (clock w1 div 1000000 < clock w2 div 1000000 \<longrightarrow> backupFileName r w1 < backupFileName r w2)"
proof -
  define ofs where "ofs = wallOffset r w2"
  define t1 where "t1 = clock w1"
  define t2 where "t2 = clock w2"
  have S: "t1 div 1000000000 + ofs \<le> t2 div 1000000000 + ofs"
    using le by (simp add: t1_def t2_def zdiv_mono1)
  have lo1: "- 62167219200 \<le> t1 div 1000000000 + ofs" and hi2: "t2 div 1000000000 + ofs < 253402300800"
    using lo hi off by (simp_all add: ofs_def t1_def t2_def)
  have lo2: "- 62167219200 \<le> t2 div 1000000000 + ofs" and hi1: "t1 div 1000000000 + ofs < 253402300800"
    using S lo1 hi2 by simp_all
  have f1: "fits stampShape (wallFields ofs t1)"
    using lo1 hi1 by (intro wallFields_fits) simp_all
  have f2: "fits stampShape (wallFields ofs t2)"
    using lo2 hi2 by (intro wallFields_fits) simp_all
  have n1: "backupFileName r w1 = prefix r @ delimiter (opt r) @ render stampShape (wallFields ofs t1) @ ext r"
    by (simp add: backupFileName_def nowDate_wall fmt Format_default off ofs_def t1_def)
  have n2: "backupFileName r w2 = prefix r @ delimiter (opt r) @ render stampShape (wallFields ofs t2) @ ext r"
    by (simp add: backupFileName_def nowDate_wall fmt Format_default ofs_def t2_def)
  have strict: "backupFileName r w1 < backupFileName r w2" if "t1 div 1000000 < t2 div 1000000"
  proof -
    have "wallFields ofs t1 < wallFields ofs t2"
      using that by (rule wallFields_less)
    then have "render stampShape (wallFields ofs t1) < render stampShape (wallFields ofs t2)"
      using f1 f2 by (intro render_less)
    moreover have "length (render stampShape (wallFields ofs t1)) = length (render stampShape (wallFields ofs t2))"
      using f1 f2 by (rule render_length)
    ultimately show ?thesis
      by (simp add: n1 n2 app_less)
  qed
  have "t1 div 1000000 \<le> t2 div 1000000"
    using le by (simp add: t1_def t2_def zdiv_mono1)
  then have "t1 div 1000000 < t2 div 1000000 \<or> t1 div 1000000 = t2 div 1000000"
    by auto
  then have "backupFileName r w1 \<le> backupFileName r w2"
  proof
    assume "t1 div 1000000 < t2 div 1000000"
    then show ?thesis using strict by simp
  next
    assume "t1 div 1000000 = t2 div 1000000"
    then have "wallFields ofs t1 = wallFields ofs t2"
      by (rule wallFields_same)
    then show ?thesis by (simp add: n1 n2)
  qed
  then show ?thesis
    using strict by (simp add: t1_def t2_def)
qed


text \<open>Two instants a little under a second apart, one hour east of UTC.\<close>

lemma Format_witness_a:
  "Format (civilOf 3600 1700000000123456789) defaultTimeFormat = ''2023-11-14T23:13:20.123''"
  by code_simp

lemma Format_witness_b:
  "Format (civilOf 3600 1700000001000000000) defaultTimeFormat = ''2023-11-14T23:13:21.000''"
  by code_simp

theorem backupFileName_order_witness:
  "timeFormat (opt r_demo) = defaultTimeFormat \<and>
   wallOffset r_demo w_demo = wallOffset r_demo (w_demo\<lparr>clock := 1700000001000000000\<rparr>) \<and>
   clock w_demo \<le> clock (w_demo\<lparr>clock := 1700000001000000000\<rparr>) \<and>
   - 62167219200 \<le> clock w_demo div 1000000000 + wallOffset r_demo w_demo \<and>
   clock (w_demo\<lparr>clock := 1700000001000000000\<rparr>) div 1000000000
     + wallOffset r_demo (w_demo\<lparr>clock := 1700000001000000000\<rparr>) < 253402300800 \<and>
   clock w_demo div 1000000 < clock (w_demo\<lparr>clock := 1700000001000000000\<rparr>) div 1000000 \<and>
   backupFileName r_demo w_demo = ''app-2023-11-14T23:13:20.123.log'' \<and>
   backupFileName r_demo (w_demo\<lparr>clock := 1700000001000000000\<rparr>) = ''app-2023-11-14T23:13:21.000.log'' \<and>
   backupFileName r_demo w_demo < backupFileName r_demo (w_demo\<lparr>clock := 1700000001000000000\<rparr>)"
proof -
  let ?w2 = "w_demo\<lparr>clock := 1700000001000000000\<rparr>"
  have a: "timeFormat (opt r_demo) = defaultTimeFormat"
    by (simp add: r_demo_def defaults_def)
  have b: "wallOffset r_demo w_demo = wallOffset r_demo ?w2"
    by (simp add: wallOffset_def w_demo_def w_init_def)
  have c: "clock w_demo \<le> clock ?w2"
    by (simp add: w_demo_def w_init_def)
  have d: "- 62167219200 \<le> clock w_demo div 1000000000 + wallOffset r_demo w_demo"
    by (simp add: wallOffset_def r_demo_def defaults_def w_demo_def w_init_def)
  have e: "clock ?w2 div 1000000000 + wallOffset r_demo ?w2 < 253402300800"
    by (simp add: wallOffset_def r_demo_def defaults_def w_demo_def w_init_def)
  have f: "clock w_demo div 1000000 < clock ?w2 div 1000000"
    by (simp add: w_demo_def w_init_def)
  have n1: "backupFileName r_demo w_demo = ''app-2023-11-14T23:13:20.123.log''"
    by (simp add: backupFileName_def nowDate_def r_demo_def defaults_def defaultDelimiter_def
        w_demo_def w_init_def Format_witness_a)
  have n2: "backupFileName r_demo ?w2 = ''app-2023-11-14T23:13:21.000.log''"
    by (simp add: backupFileName_def nowDate_def r_demo_def defaults_def defaultDelimiter_def
        w_demo_def w_init_def Format_witness_b)
  have "backupFileName r_demo w_demo < backupFileName r_demo ?w2"
    using backupFileName_order [OF a b c d e] f by blast
  then show ?thesis
    using a b c d e f n1 n2 by (intro conjI)
qed

text \<open>
  Under the UTC policy two instants one nanosecond apart get the same name; under the
  local policy the hour repeated when the offset goes from two hours to one gives the
  later instant the smaller name; and with the layout of \<open>constants.go\<close>, which drops
  trailing zeros of the fraction, a tenth of a second later sorts first.
\<close>

lemma Format_cex_a:
  "Format (civilOf 0 1700000000123000000) defaultTimeFormat = ''2023-11-14T22:13:20.123''"
  "Format (civilOf 0 1700000000123000001) defaultTimeFormat = ''2023-11-14T22:13:20.123''"
  by code_simp+

lemma Format_cex_b:
  "Format (civilOf 7200 1698541199000000000) defaultTimeFormat = ''2023-10-29T02:59:59.000''"
  "Format (civilOf 3600 1698541200000000000) defaultTimeFormat = ''2023-10-29T02:00:00.000''"
  by code_simp+

lemma Format_cex_c:
  "Format (civilOf 0 1700000000000000000) defaultTimeFormat_c = ''2023-11-14T22:13:20Z''"
  "Format (civilOf 0 1700000000100000000) defaultTimeFormat_c = ''2023-11-14T22:13:20.1Z''"
  by code_simp+

theorem backupFileName_order_counterexample:
  "clock (w_demo\<lparr>clock := 1700000000123000000\<rparr>) < clock (w_demo\<lparr>clock := 1700000000123000001\<rparr>) \<and>
   backupFileName r_utc (w_demo\<lparr>clock := 1700000000123000000\<rparr>)
     = backupFileName r_utc (w_demo\<lparr>clock := 1700000000123000001\<rparr>) \<and>
   clock (w_dst\<lparr>clock := 1698541199000000000\<rparr>) < clock (w_dst\<lparr>clock := 1698541200000000000\<rparr>) \<and>
   backupFileName r_demo (w_dst\<lparr>clock := 1698541200000000000\<rparr>)
     < backupFileName r_demo (w_dst\<lparr>clock := 1698541199000000000\<rparr>) \<and>
   clock (w_demo\<lparr>clock := 1700000000000000000\<rparr>) < clock (w_demo\<lparr>clock := 1700000000100000000\<rparr>) \<and>
   backupFileName r_utc_c (w_demo\<lparr>clock := 1700000000100000000\<rparr>)
     < backupFileName r_utc_c (w_demo\<lparr>clock := 1700000000000000000\<rparr>)"
proof -
  have a: "backupFileName r_utc (w_demo\<lparr>clock := 1700000000123000000\<rparr>) = ''app-2023-11-14T22:13:20.123.log''"
          "backupFileName r_utc (w_demo\<lparr>clock := 1700000000123000001\<rparr>) = ''app-2023-11-14T22:13:20.123.log''"
    by (simp_all add: backupFileName_def nowDate_def r_utc_def r_demo_def defaults_def
        defaultDelimiter_def Format_cex_a)
  have b: "backupFileName r_demo (w_dst\<lparr>clock := 1698541199000000000\<rparr>) = ''app-2023-10-29T02:59:59.000.log''"
          "backupFileName r_demo (w_dst\<lparr>clock := 1698541200000000000\<rparr>) = ''app-2023-10-29T02:00:00.000.log''"
    by (simp_all add: backupFileName_def nowDate_def r_demo_def defaults_def
        defaultDelimiter_def w_dst_def Format_cex_b)
  have c: "backupFileName r_utc_c (w_demo\<lparr>clock := 1700000000000000000\<rparr>) = ''app-2023-11-14T22:13:20Z.log''"
          "backupFileName r_utc_c (w_demo\<lparr>clock := 1700000000100000000\<rparr>) = ''app-2023-11-14T22:13:20.1Z.log''"
    by (simp_all add: backupFileName_def nowDate_def r_utc_c_def r_demo_def defaults_c_def defaults_def
        defaultDelimiter_def Format_cex_c)
  show ?thesis
    by (simp add: a b c)
qed

end
